theory Spec2Isabelle
  imports Complex_Main
begin

section \<open>Python strings and exceptions\<close>

text \<open>
  A Python \<open>str\<close> is modelled as a \<open>string\<close>: a list of characters, each character
  standing for the code point of the same number (code points below 256, that is Latin-1).
  Exceptions are values: a class and the message that \<open>str(e)\<close> returns.
\<close>

datatype exc_class =
    ValueError | KeyError | IndexError | AttributeError | TypeError | RuntimeError
  | Timeout | ConnectionError | HTTPError | InvalidURL
  | WebDriverException | KeyboardInterrupt

datatype py_exception = PyExc (exc_class: exc_class) (exc_msg: string)

definition is_ascii_digit :: "char \<Rightarrow> bool" where
  \<comment> \<open>the class \<open>[0-9]\<close>\<close>
  "is_ascii_digit c \<longleftrightarrow> c \<in> set ''0123456789''"

definition char_isdigit :: "char \<Rightarrow> bool" where
  \<comment> \<open>\<open>str.isdigit\<close> on one character: the decimal digits and, below 256, the superscripts
      two, three and one (code points 178, 179, 185).\<close>
  "char_isdigit c \<longleftrightarrow> is_ascii_digit c \<or> c \<in> set [CHR 0xB2, CHR 0xB3, CHR 0xB9]"

definition str_isdigit :: "string \<Rightarrow> bool" where
  \<comment> \<open>\<open>s.isdigit()\<close>: at least one character, and every character a digit.\<close>
  "str_isdigit s \<longleftrightarrow> s \<noteq> [] \<and> list_all char_isdigit s"

definition int_of_digit :: "char \<Rightarrow> py_exception + int" where
  \<comment> \<open>\<open>int(d)\<close> for a one-character string: only a decimal digit parses.\<close>
  "int_of_digit c =
     (if is_ascii_digit c then Inr (int (of_char c) - 48)
      else Inl (PyExc ValueError (''invalid literal for int() with base 10: '' @ [CHR 0x27, c, CHR 0x27])))"

fun digits_of :: "string \<Rightarrow> py_exception + int list" where
  \<comment> \<open>\<open>[int(d) for d in s]\<close>: the first failing conversion raises.\<close>
  "digits_of [] = Inr []"
| "digits_of (c # cs) =
     (case int_of_digit c of
        Inl e \<Rightarrow> Inl e
      | Inr d \<Rightarrow> (case digits_of cs of Inl e \<Rightarrow> Inl e | Inr ds \<Rightarrow> Inr (d # ds)))"

section \<open>Dutch identifier validators (new\_vat\_extractor\_nl.py)\<close>

definition validate_kvk_number :: "string \<Rightarrow> bool" where
  "validate_kvk_number kvk_number =
     (if kvk_number = [] \<or> length kvk_number \<noteq> 8 \<or> \<not> str_isdigit kvk_number then False
      else \<not> (take 1 kvk_number = ''0''))"

definition validate_rsin_number :: "string \<Rightarrow> py_exception + bool" where
  "validate_rsin_number rsin_number =
     (if rsin_number = [] \<or> length rsin_number \<noteq> 9 \<or> \<not> str_isdigit rsin_number then Inr False
      else
        (case digits_of rsin_number of
           Inl e \<Rightarrow> Inl e
         | Inr digits \<Rightarrow>
             (let checksum = (\<Sum>i\<leftarrow>[0..<8]. digits ! i * (9 - int i)) mod 11
              in if checksum < 2 then Inr (digits ! 8 = checksum)
                 else Inr (digits ! 8 = 11 - checksum))))"

definition validate_btw_number :: "string \<Rightarrow> py_exception + bool" where
  "validate_btw_number btw_number =
     (if btw_number = [] \<or> length btw_number \<noteq> 9 \<or> \<not> str_isdigit btw_number then Inr False
      else validate_rsin_number btw_number)"

text \<open>
  The rule in the specification's words: with digits \<open>d0..d8\<close>, the checksum is the sum of
  \<open>d\<^sub>i * (9 - i)\<close> for \<open>i = 0..7\<close> modulo 11, and the number is valid iff \<open>d8\<close> equals the
  checksum when it is below 2, and 11 minus the checksum otherwise.
\<close>

definition digit_value :: "char \<Rightarrow> int" where
  "digit_value c = int (of_char c) - 48"

definition rsin_checksum :: "string \<Rightarrow> int" where
  "rsin_checksum s = (\<Sum>i\<leftarrow>[0..<8]. digit_value (s ! i) * (9 - int i)) mod 11"

definition rsin_rule :: "string \<Rightarrow> bool" where
  "rsin_rule s \<longleftrightarrow>
     (if rsin_checksum s < 2 then digit_value (s ! 8) = rsin_checksum s
      else digit_value (s ! 8) = 11 - rsin_checksum s)"

definition weighted_sum :: "string \<Rightarrow> int" where
  "weighted_sum s = (\<Sum>i\<leftarrow>[0..<8]. digit_value (s ! i) * (9 - int i))"

section \<open>String methods and regular expressions\<close>

text \<open>
  The character classes of Python's \<open>str\<close> methods and of the \<open>re\<close> module on \<open>str\<close>
  patterns, restricted to the code points below 256.
\<close>

definition char_isspace :: "char \<Rightarrow> bool" where
  \<comment> \<open>\<open>str.isspace\<close> and the class \<open>\s\<close>: code points 9..13, 28..32, 133 and 160\<close>
  "char_isspace c \<longleftrightarrow>
     c \<in> set [CHR 0x09, CHR 0x0A, CHR 0x0B, CHR 0x0C, CHR 0x0D, CHR 0x1C, CHR 0x1D, CHR 0x1E,
              CHR 0x1F, CHR 0x20, CHR 0x85, CHR 0xA0]"

definition ascii_uppercase :: string where
  "ascii_uppercase = ''ABCDEFGHIJKLMNOPQRSTUVWXYZ''"

definition ascii_lowercase :: string where
  "ascii_lowercase = ''abcdefghijklmnopqrstuvwxyz''"

definition latin1_uppercase :: string where
  \<comment> \<open>code points 192..222 without the multiplication sign 215\<close>
  "latin1_uppercase =
     [CHR 0xC0, CHR 0xC1, CHR 0xC2, CHR 0xC3, CHR 0xC4, CHR 0xC5, CHR 0xC6, CHR 0xC7,
      CHR 0xC8, CHR 0xC9, CHR 0xCA, CHR 0xCB, CHR 0xCC, CHR 0xCD, CHR 0xCE, CHR 0xCF,
      CHR 0xD0, CHR 0xD1, CHR 0xD2, CHR 0xD3, CHR 0xD4, CHR 0xD5, CHR 0xD6, CHR 0xD8,
      CHR 0xD9, CHR 0xDA, CHR 0xDB, CHR 0xDC, CHR 0xDD, CHR 0xDE]"

definition latin1_lowercase :: string where
  \<comment> \<open>code points 224..254 without the division sign 247, in the order of their capitals\<close>
  "latin1_lowercase =
     [CHR 0xE0, CHR 0xE1, CHR 0xE2, CHR 0xE3, CHR 0xE4, CHR 0xE5, CHR 0xE6, CHR 0xE7,
      CHR 0xE8, CHR 0xE9, CHR 0xEA, CHR 0xEB, CHR 0xEC, CHR 0xED, CHR 0xEE, CHR 0xEF,
      CHR 0xF0, CHR 0xF1, CHR 0xF2, CHR 0xF3, CHR 0xF4, CHR 0xF5, CHR 0xF6, CHR 0xF8,
      CHR 0xF9, CHR 0xFA, CHR 0xFB, CHR 0xFC, CHR 0xFD, CHR 0xFE]"

definition char_isalpha :: "char \<Rightarrow> bool" where
  \<comment> \<open>the letters below 256; 170, 181, 186, 223 and 255 are letters without a capital there\<close>
  "char_isalpha c \<longleftrightarrow>
     c \<in> set (ascii_uppercase @ ascii_lowercase @ latin1_uppercase @ latin1_lowercase
              @ [CHR 0xAA, CHR 0xB5, CHR 0xBA, CHR 0xDF, CHR 0xFF])"

definition char_isalnum :: "char \<Rightarrow> bool" where
  \<comment> \<open>letters, digits (with the superscripts) and the fractions 188..190, which are numeric\<close>
  "char_isalnum c \<longleftrightarrow> char_isalpha c \<or> char_isdigit c \<or> c \<in> set [CHR 0xBC, CHR 0xBD, CHR 0xBE]"

definition char_isword :: "char \<Rightarrow> bool" where
  \<comment> \<open>the class \<open>\w\<close>\<close>
  "char_isword c \<longleftrightarrow> char_isalnum c \<or> c = CHR ''_''"

definition lower_char :: "char \<Rightarrow> char" where
  "lower_char c =
     (case map_of (zip (ascii_uppercase @ latin1_uppercase) (ascii_lowercase @ latin1_lowercase)) c of
        Some d \<Rightarrow> d | None \<Rightarrow> c)"

definition upper_char :: "char \<Rightarrow> char" where
  \<comment> \<open>The one-to-one upper-case mapping that \<open>re\<close> uses; the characters 181, 223 and 255
      have no capital below 256 and stay as they are.\<close>
  "upper_char c =
     (case map_of (zip (ascii_lowercase @ latin1_lowercase) (ascii_uppercase @ latin1_uppercase)) c of
        Some d \<Rightarrow> d | None \<Rightarrow> c)"

definition str_lower :: "string \<Rightarrow> string" where
  "str_lower s = map lower_char s"

definition str_upper :: "string \<Rightarrow> string" where
  \<comment> \<open>\<open>s.upper()\<close>; the sharp s (223) becomes two letters.\<close>
  "str_upper s = concat (map (\<lambda>c. if c = CHR 0xDF then ''SS'' else [upper_char c]) s)"

definition str_strip :: "string \<Rightarrow> string" where
  "str_strip s = rev (dropWhile char_isspace (rev (dropWhile char_isspace s)))"

definition str_contains :: "string \<Rightarrow> string \<Rightarrow> bool" where
  \<comment> \<open>\<open>sub in s\<close>\<close>
  "str_contains sub s \<longleftrightarrow> (\<exists>i \<in> set [0..<Suc (length s)]. take (length sub) (drop i s) = sub)"

definition startswith :: "string \<Rightarrow> string \<Rightarrow> bool" where
  "startswith s p \<longleftrightarrow> take (length p) s = p"

text \<open>
  Regular expressions: the constructs that the patterns of the extractors use. The items
  of a character set are single characters, the ranges \<open>0-9\<close>, \<open>A-Z\<close> and \<open>a-z\<close>, and the
  classes \<open>\s\<close> and \<open>\w\<close>. Repetition
  is over a character class, which is all these patterns repeat, apart from optional
  groups. The matcher returns every way to match at a position, in the order in which a
  backtracking matcher tries them (greedy first), as pairs of the text before the match
  end (reversed) and the text after, with the groups captured so far.
\<close>

datatype citem = Ch char | DigitRng | UpperRng | LowerRng | SpaceCls | WordCls

datatype cset = CSet (negated: bool) (items: "citem list")

datatype rx =
    Lit string
  | In cset
  | Seq rx rx
  | Alt rx rx
  | Rep nat "nat option" cset
  | Opt rx
  | Grp rx
  | Look rx
  | WordBoundary
  | Bol
  | Eol

fun citem_mem :: "citem \<Rightarrow> char \<Rightarrow> bool" where
  "citem_mem (Ch d) c \<longleftrightarrow> c = d"
| "citem_mem DigitRng c \<longleftrightarrow> is_ascii_digit c"
| "citem_mem UpperRng c \<longleftrightarrow> c \<in> set ascii_uppercase"
| "citem_mem LowerRng c \<longleftrightarrow> c \<in> set ascii_lowercase"
| "citem_mem SpaceCls c \<longleftrightarrow> char_isspace c"
| "citem_mem WordCls c \<longleftrightarrow> char_isword c"

definition cset_hit :: "cset \<Rightarrow> char \<Rightarrow> bool" where
  "cset_hit cs x \<longleftrightarrow> list_ex (\<lambda>it. citem_mem it x) (items cs)"

definition cset_mem :: "bool \<Rightarrow> cset \<Rightarrow> char \<Rightarrow> bool" where
  \<comment> \<open>With \<open>IGNORECASE\<close> a character is in a set when it is, or its lower-case or its
      upper-case form is.\<close>
  "cset_mem ic cs c \<longleftrightarrow>
     (let inside = (if cset_hit cs c then True
                    else if ic then (if cset_hit cs (lower_char c) then True else cset_hit cs (upper_char c))
                    else False)
      in if negated cs then \<not> inside else inside)"

definition char_eq :: "bool \<Rightarrow> char \<Rightarrow> char \<Rightarrow> bool" where
  \<comment> \<open>a literal character of the pattern against a character of the text\<close>
  "char_eq ic x c \<longleftrightarrow> (if x = c then True else if ic then lower_char x = lower_char c else False)"

fun lit_match :: "bool \<Rightarrow> string \<Rightarrow> string \<Rightarrow> string \<Rightarrow> (string \<times> string) option" where
  "lit_match ic [] b a = Some (b, a)"
| "lit_match ic (x # l) b [] = None"
| "lit_match ic (x # l) b (c # a) = (if char_eq ic x c then lit_match ic l (c # b) a else None)"

type_synonym mstate = "string \<times> string \<times> string list"

fun rx_match :: "bool \<Rightarrow> rx \<Rightarrow> mstate \<Rightarrow> mstate list" where
  "rx_match ic (Lit l) (b, a, g) =
     (case lit_match ic l b a of None \<Rightarrow> [] | Some (b', a') \<Rightarrow> [(b', a', g)])"
| "rx_match ic (In cs) (b, a, g) =
     (case a of [] \<Rightarrow> [] | c # a' \<Rightarrow> if cset_mem ic cs c then [(c # b, a', g)] else [])"
| "rx_match ic (Seq r1 r2) st = concat (map (rx_match ic r2) (rx_match ic r1 st))"
| "rx_match ic (Alt r1 r2) st = rx_match ic r1 st @ rx_match ic r2 st"
| "rx_match ic (Rep m n cs) (b, a, g) =
     (let avail = length (takeWhile (cset_mem ic cs) a);
          hi = (case n of None \<Rightarrow> avail | Some n' \<Rightarrow> min n' avail)
      in if hi < m then []
         else map (\<lambda>k. (rev (take k a) @ b, drop k a, g)) (rev [m..<Suc hi]))"
| "rx_match ic (Opt r) st = rx_match ic r st @ [st]"
| "rx_match ic (Grp r) (b, a, g) =
     map (\<lambda>(b', a', g'). (b', a', g' @ [rev (take (length b' - length b) b')]))
       (rx_match ic r (b, a, g))"
| "rx_match ic (Look r) st = (if rx_match ic r st = [] then [] else [st])"
| "rx_match ic WordBoundary (b, a, g) =
     (if (b \<noteq> [] \<and> char_isword (hd b)) \<noteq> (a \<noteq> [] \<and> char_isword (hd a)) then [(b, a, g)] else [])"
| "rx_match ic Bol (b, a, g) = (if b = [] then [(b, a, g)] else [])"
| "rx_match ic Eol (b, a, g) = (if a = [] \<or> a = [CHR 0x0A] then [(b, a, g)] else [])"

text \<open>A match object: \<open>group(0)\<close> and the list \<open>groups()\<close>.\<close>

record rematch =
  group0 :: string
  groups :: "string list"

definition match_at :: "bool \<Rightarrow> rx \<Rightarrow> string \<Rightarrow> string \<Rightarrow> rematch option" where
  "match_at ic r b a =
     (case rx_match ic r (b, a, []) of
        [] \<Rightarrow> None
      | (b', a', g) # _ \<Rightarrow> Some \<lparr>group0 = rev (take (length b' - length b) b'), groups = g\<rparr>)"

definition re_match :: "bool \<Rightarrow> rx \<Rightarrow> string \<Rightarrow> rematch option" where
  \<comment> \<open>\<open>re.match\<close>: at the start of the string only\<close>
  "re_match ic r s = match_at ic r [] s"

fun search_from :: "bool \<Rightarrow> rx \<Rightarrow> string \<Rightarrow> string \<Rightarrow> rematch option" where
  "search_from ic r b [] = match_at ic r b []"
| "search_from ic r b (c # a) =
     (case match_at ic r b (c # a) of Some m \<Rightarrow> Some m | None \<Rightarrow> search_from ic r (c # b) a)"

definition re_search :: "bool \<Rightarrow> rx \<Rightarrow> string \<Rightarrow> rematch option" where
  \<comment> \<open>\<open>re.search\<close>: the leftmost match\<close>
  "re_search ic r s = search_from ic r [] s"

fun finditer_from :: "bool \<Rightarrow> rx \<Rightarrow> string \<Rightarrow> string \<Rightarrow> nat \<Rightarrow> rematch list" where
  \<comment> \<open>\<open>skip\<close> counts the characters of the previous match still to be passed over\<close>
  "finditer_from ic r b [] skip =
     (if skip = 0 then (case match_at ic r b [] of None \<Rightarrow> [] | Some m \<Rightarrow> [m]) else [])"
| "finditer_from ic r b (c # a) skip =
     (if 0 < skip then finditer_from ic r (c # b) a (skip - 1)
      else (case match_at ic r b (c # a) of
              None \<Rightarrow> finditer_from ic r (c # b) a 0
            | Some m \<Rightarrow> m # finditer_from ic r (c # b) a (length (group0 m) - 1)))"

definition re_finditer :: "bool \<Rightarrow> rx \<Rightarrow> string \<Rightarrow> rematch list" where
  \<comment> \<open>\<open>re.finditer\<close>: the non-overlapping matches from left to right (none of the patterns
      below matches the empty string)\<close>
  "re_finditer ic r s = finditer_from ic r [] s 0"

definition group1_or_0 :: "rematch \<Rightarrow> string" where
  \<comment> \<open>\<open>match.group(1) if len(match.groups()) > 0 else match.group(0)\<close>\<close>
  "group1_or_0 m = (if 0 < length (groups m) then groups m ! 0 else group0 m)"

definition digits_only :: "string \<Rightarrow> string" where
  \<comment> \<open>\<open>re.sub(r'[^0-9]', '', code)\<close>\<close>
  "digits_only code = filter is_ascii_digit code"

text \<open>Abbreviations for the pieces the patterns are made of.\<close>

definition cs_digit :: cset where "cs_digit = CSet False [DigitRng]"
definition cs_space :: cset where "cs_space = CSet False [SpaceCls]"
definition cs_sep :: cset where
  \<comment> \<open>\<open>[\s#:]\<close>\<close>
  "cs_sep = CSet False [SpaceCls, Ch CHR ''#'', Ch CHR '':'']"

fun seqs :: "rx list \<Rightarrow> rx" where
  "seqs [] = Lit []"
| "seqs [r] = r"
| "seqs (r # rs) = Seq r (seqs rs)"

fun alts :: "rx list \<Rightarrow> rx" where
  "alts [] = Lit []"
| "alts [r] = r"
| "alts (r # rs) = Alt r (alts rs)"

section \<open>Name similarity\<close>

subsection \<open>\<open>difflib.SequenceMatcher(None, a, b).ratio()\<close>\<close>

text \<open>
  The matcher of Python's standard library, as the extractors call it: no junk predicate,
  \<open>autojunk\<close> on. Positions are natural numbers; where the library computes \<open>j - 1\<close> for
  \<open>j = 0\<close> and finds no entry for \<open>-1\<close>, the model tests \<open>j = 0\<close>, and it writes
  \<open>i + 1 - k\<close> for \<open>i - k + 1\<close>.
\<close>

fun indices :: "'a \<Rightarrow> 'a list \<Rightarrow> nat \<Rightarrow> nat list" where
  \<comment> \<open>the positions of \<open>x\<close> in a list whose first element has position \<open>n\<close>, ascending\<close>
  "indices x [] n = []"
| "indices x (y # ys) n = (if y = x then n # indices x ys (Suc n) else indices x ys (Suc n))"

definition chain_b :: "'a list \<Rightarrow> 'a \<Rightarrow> nat list" where
  \<comment> \<open>\<open>b2j\<close>: for each element its positions in \<open>b\<close>; in a sequence of 200 elements or more,
      an element with more than \<open>n // 100 + 1\<close> positions is popular and loses its entry.
      A missing entry reads as the empty list, as \<open>b2j.get(elt, [])\<close> does.\<close>
  "chain_b b =
     (let n = length b
      in if 200 \<le> n
         then (let ntest = n div 100 + 1
               in (\<lambda>elt. if ntest < length (indices elt b 0) then [] else indices elt b 0))
         else (\<lambda>elt. indices elt b 0))"

type_synonym block = "nat \<times> nat \<times> nat"

fun flm_inner ::
  "nat list \<Rightarrow> nat \<Rightarrow> nat \<Rightarrow> nat \<Rightarrow> (nat \<rightharpoonup> nat) \<Rightarrow> (nat \<rightharpoonup> nat) \<Rightarrow> block \<Rightarrow> (nat \<rightharpoonup> nat) \<times> block" where
  \<comment> \<open>the loop \<open>for j in b2j.get(a[i], nothing)\<close>, with \<open>continue\<close> below \<open>blo\<close> and \<open>break\<close>
      from \<open>bhi\<close> on\<close>
  "flm_inner [] blo bhi i j2len newj2len best = (newj2len, best)"
| "flm_inner (j # js) blo bhi i j2len newj2len (besti, bestj, bestsize) =
     (if j < blo then flm_inner js blo bhi i j2len newj2len (besti, bestj, bestsize)
      else if bhi \<le> j then (newj2len, (besti, bestj, bestsize))
      else
        (let k = (case (if j = 0 then None else j2len (j - 1)) of None \<Rightarrow> 0 | Some v \<Rightarrow> v) + 1
         in flm_inner js blo bhi i j2len (newj2len(j \<mapsto> k))
              (if bestsize < k then (i + 1 - k, j + 1 - k, k) else (besti, bestj, bestsize))))"

fun flm_rows ::
  "'a list \<Rightarrow> ('a \<Rightarrow> nat list) \<Rightarrow> nat \<Rightarrow> nat \<Rightarrow> nat list \<Rightarrow> (nat \<rightharpoonup> nat) \<Rightarrow> block \<Rightarrow> block" where
  \<comment> \<open>the loop \<open>for i in range(alo, ahi)\<close>\<close>
  "flm_rows a b2j blo bhi [] j2len best = best"
| "flm_rows a b2j blo bhi (i # rest) j2len best =
     (case flm_inner (b2j (a ! i)) blo bhi i j2len Map.empty best of
        (newj2len, best') \<Rightarrow> flm_rows a b2j blo bhi rest newj2len best')"

function extend_left :: "'a list \<Rightarrow> 'a list \<Rightarrow> nat \<Rightarrow> nat \<Rightarrow> block \<Rightarrow> block" where
  "extend_left a b alo blo (besti, bestj, bestsize) =
     (if alo < besti \<and> blo < bestj \<and> a ! (besti - 1) = b ! (bestj - 1)
      then extend_left a b alo blo (besti - 1, bestj - 1, bestsize + 1)
      else (besti, bestj, bestsize))"
  by pat_completeness auto
termination
  by (relation "measure (\<lambda>(a, b, alo, blo, besti, bestj, bestsize). besti)") auto

declare extend_left.simps [simp del]

function extend_right :: "'a list \<Rightarrow> 'a list \<Rightarrow> nat \<Rightarrow> nat \<Rightarrow> block \<Rightarrow> block" where
  "extend_right a b ahi bhi (besti, bestj, bestsize) =
     (if besti + bestsize < ahi \<and> bestj + bestsize < bhi \<and> a ! (besti + bestsize) = b ! (bestj + bestsize)
      then extend_right a b ahi bhi (besti, bestj, bestsize + 1)
      else (besti, bestj, bestsize))"
  by pat_completeness auto
termination
  by (relation "measure (\<lambda>(a, b, ahi, bhi, besti, bestj, bestsize). ahi - (besti + bestsize))") auto

declare extend_right.simps [simp del]

definition find_longest_match ::
  "'a list \<Rightarrow> 'a list \<Rightarrow> ('a \<Rightarrow> nat list) \<Rightarrow> nat \<Rightarrow> nat \<Rightarrow> nat \<Rightarrow> nat \<Rightarrow> block" where
  \<comment> \<open>With no junk the two loops that take in junk on each side never run.\<close>
  "find_longest_match a b b2j alo ahi blo bhi =
     extend_right a b ahi bhi
       (extend_left a b alo blo
          (flm_rows a b2j blo bhi [alo..<ahi] Map.empty (alo, blo, 0)))"

text \<open>
  The bounds of a longest match: it lies inside the two ranges. The recursion of
  \<open>get_matching_blocks\<close> terminates because of them.
\<close>

definition row_ok :: "nat \<Rightarrow> nat \<Rightarrow> nat \<Rightarrow> (nat \<rightharpoonup> nat) \<Rightarrow> bool" where
  "row_ok blo alo i m \<longleftrightarrow> (\<forall>j v. m j = Some v \<longrightarrow> blo \<le> j \<and> v \<le> j + 1 - blo \<and> v + alo \<le> i)"

definition best_ok :: "nat \<Rightarrow> nat \<Rightarrow> nat \<Rightarrow> nat \<Rightarrow> block \<Rightarrow> bool" where
  "best_ok alo ahi blo bhi best \<longleftrightarrow>
     (case best of (bi, bj, bs) \<Rightarrow>
        alo \<le> bi \<and> blo \<le> bj \<and> (if bs = 0 then bi = alo \<and> bj = blo else bi + bs \<le> ahi \<and> bj + bs \<le> bhi))"

lemma flm_inner_inv:
  assumes "flm_inner js blo bhi i j2len new best = (new', best')"
    and "row_ok blo alo i j2len" and "row_ok blo alo (Suc i) new"
    and "alo \<le> i" "i < ahi" and "best_ok alo ahi blo bhi best"
  shows "row_ok blo alo (Suc i) new' \<and> best_ok alo ahi blo bhi best'"
  using assms
proof (induction js blo bhi i j2len new best rule: flm_inner.induct)
  case (1 blo bhi i j2len newj2len best)
  then show ?case by auto
next
  case (2 j js blo bhi i j2len newj2len besti bestj bestsize)
  show ?case
  proof (cases "j < blo")
    case True
    with 2 show ?thesis by simp
  next
    case nlo: False
    show ?thesis
    proof (cases "bhi \<le> j")
      case True
      with nlo 2 show ?thesis by auto
    next
      case nhi: False
      define k where "k = (case (if j = 0 then None else j2len (j - 1)) of None \<Rightarrow> 0 | Some v \<Rightarrow> v) + 1"
      have kj: "k \<le> j + 1 - blo" and ki: "k + alo \<le> Suc i"
      proof -
        show "k \<le> j + 1 - blo"
        proof (cases "j = 0 \<or> j2len (j - 1) = None")
          case True
          then have "k = 1" by (auto simp: k_def)
          then show ?thesis using nlo by simp
        next
          case False
          then obtain v where v: "j2len (j - 1) = Some v" and j0: "j \<noteq> 0" by auto
          from "2.prems"(2) v have "blo \<le> j - 1 \<and> v \<le> j - 1 + 1 - blo"
            unfolding row_ok_def by blast
          moreover have "k = v + 1" using v j0 by (simp add: k_def)
          ultimately show ?thesis using j0 by arith
        qed
        show "k + alo \<le> Suc i"
        proof (cases "j = 0 \<or> j2len (j - 1) = None")
          case True
          then have "k = 1" by (auto simp: k_def)
          then show ?thesis using "2.prems"(4) by simp
        next
          case False
          then obtain v where v: "j2len (j - 1) = Some v" and j0: "j \<noteq> 0" by auto
          from "2.prems"(2) v have "v + alo \<le> i"
            unfolding row_ok_def by blast
          moreover have "k = v + 1" using v j0 by (simp add: k_def)
          ultimately show ?thesis by simp
        qed
      qed
      have step: "flm_inner js blo bhi i j2len (newj2len(j \<mapsto> k))
              (if bestsize < k then (i + 1 - k, j + 1 - k, k) else (besti, bestj, bestsize)) = (new', best')"
        using "2.prems"(1) unfolding k_def by (simp only: flm_inner.simps nlo nhi if_False Let_def)
      have newinv: "row_ok blo alo (Suc i) (newj2len(j \<mapsto> k))"
        using "2.prems"(3) kj ki nlo by (auto simp: row_ok_def)
      have bestinv: "best_ok alo ahi blo bhi (if bestsize < k then (i + 1 - k, j + 1 - k, k) else (besti, bestj, bestsize))"
        using "2.prems"(6) kj ki nlo nhi "2.prems"(4,5) by (auto simp: best_ok_def)
      show ?thesis
        using "2.IH"(2)[OF nlo nhi k_def step "2.prems"(2) newinv "2.prems"(4,5) bestinv]
        by simp
    qed
  qed
qed

lemma flm_rows_inv:
  assumes "row_ok blo alo i j2len" "best_ok alo ahi blo bhi best" "alo \<le> i" "i \<le> ahi"
  shows "best_ok alo ahi blo bhi (flm_rows a b2j blo bhi [i..<ahi] j2len best)"
  using assms
proof (induction "ahi - i" arbitrary: i j2len best)
  case 0
  then show ?case by simp
next
  case (Suc n)
  then have lt: "i < ahi" by simp
  obtain new best' where inner: "flm_inner (b2j (a ! i)) blo bhi i j2len Map.empty best = (new, best')"
    by (cases "flm_inner (b2j (a ! i)) blo bhi i j2len Map.empty best")
  have e: "row_ok blo alo (Suc i) Map.empty" by (simp add: row_ok_def)
  from flm_inner_inv[OF inner Suc.prems(1) e Suc.prems(3) lt Suc.prems(2)]
  have r: "row_ok blo alo (Suc i) new" and b: "best_ok alo ahi blo bhi best'" by simp_all
  have "best_ok alo ahi blo bhi (flm_rows a b2j blo bhi [Suc i..<ahi] new best')"
    using Suc.hyps(1)[of "Suc i" new best'] Suc.hyps(2) r b Suc.prems(3) lt by simp
  then show ?case using lt inner by (simp add: upt_conv_Cons)
qed

lemma extend_left_inv:
  "best_ok alo ahi blo bhi best \<Longrightarrow> best_ok alo ahi blo bhi (extend_left a b alo blo best)"
proof (induction a b alo blo best rule: extend_left.induct)
  case (1 a b alo blo besti bestj bestsize)
  show ?case
  proof (cases "alo < besti \<and> blo < bestj \<and> a ! (besti - 1) = b ! (bestj - 1)")
    case True
    have ok: "best_ok alo ahi blo bhi (besti - 1, bestj - 1, bestsize + 1)"
      using 1(2) True by (auto simp: best_ok_def split: if_splits)
    from 1(1)[OF True ok] True show ?thesis
      by (subst extend_left.simps) simp
  next
    case False
    then show ?thesis using 1(2) by (subst extend_left.simps) auto
  qed
qed

lemma extend_right_inv:
  "best_ok alo ahi blo bhi best \<Longrightarrow> best_ok alo ahi blo bhi (extend_right a b ahi bhi best)"
proof (induction a b ahi bhi best rule: extend_right.induct)
  case (1 a b ahi bhi besti bestj bestsize)
  show ?case
  proof (cases "besti + bestsize < ahi \<and> bestj + bestsize < bhi \<and> a ! (besti + bestsize) = b ! (bestj + bestsize)")
    case True
    have ok: "best_ok alo ahi blo bhi (besti, bestj, bestsize + 1)"
      using 1(2) True by (auto simp: best_ok_def split: if_splits)
    from 1(1)[OF True ok] True show ?thesis
      by (subst extend_right.simps) simp
  next
    case False
    then show ?thesis using 1(2) by (subst extend_right.simps) auto
  qed
qed

lemma find_longest_match_ok:
  "best_ok alo ahi blo bhi (find_longest_match a b b2j alo ahi blo bhi)"
proof -
  have r0: "row_ok blo alo alo Map.empty" by (simp add: row_ok_def)
  have b0: "best_ok alo ahi blo bhi (alo, blo, 0)" by (simp add: best_ok_def)
  have rows: "best_ok alo ahi blo bhi (flm_rows a b2j blo bhi [alo..<ahi] Map.empty (alo, blo, 0))"
  proof (cases "alo \<le> ahi")
    case True
    from flm_rows_inv[OF r0 b0 _ True] show ?thesis by simp
  next
    case False
    then show ?thesis using b0 by simp
  qed
  show ?thesis unfolding find_longest_match_def
    by (intro extend_right_inv extend_left_inv rows)
qed

lemma find_longest_match_bounds:
  assumes "find_longest_match a b b2j alo ahi blo bhi = (i, j, k)" "0 < k"
  shows "alo \<le> i \<and> i + k \<le> ahi \<and> blo \<le> j \<and> j + k \<le> bhi"
  using find_longest_match_ok[of alo ahi blo bhi a b b2j] assms by (simp add: best_ok_def)

text \<open>
  \<open>get_matching_blocks\<close> takes the longest match of a range and goes on with the ranges
  to its left and to its right. The library then sorts the blocks and merges adjacent
  ones, which leaves the sum of their sizes, all that \<open>ratio\<close> reads, as it is.
\<close>

function matching_blocks ::
  "'a list \<Rightarrow> 'a list \<Rightarrow> ('a \<Rightarrow> nat list) \<Rightarrow> nat \<Rightarrow> nat \<Rightarrow> nat \<Rightarrow> nat \<Rightarrow> block list" where
  "matching_blocks a b b2j alo ahi blo bhi =
     (case find_longest_match a b b2j alo ahi blo bhi of
        (i, j, k) \<Rightarrow>
          if k = 0 then []
          else (i, j, k)
               # (if alo < i \<and> blo < j then matching_blocks a b b2j alo i blo j else [])
               @ (if i + k < ahi \<and> j + k < bhi then matching_blocks a b b2j (i + k) ahi (j + k) bhi else []))"
  by pat_completeness auto
termination
proof (relation "measure (\<lambda>(a, b, b2j, alo, ahi, blo, bhi). ahi - alo)", goal_cases)
  case 1
  show ?case by simp
next
  case (2 a b b2j alo ahi blo bhi i y j k)
  then have "find_longest_match a b b2j alo ahi blo bhi = (i, j, k)" "0 < k" by auto
  from find_longest_match_bounds[OF this] have "i + k \<le> ahi" by simp
  moreover have "alo < i" "0 < k" using 2 by auto
  ultimately have "i - alo < ahi - alo" by linarith
  then show ?case by simp
next
  case (3 a b b2j alo ahi blo bhi i y j k)
  then have "find_longest_match a b b2j alo ahi blo bhi = (i, j, k)" "0 < k" by auto
  from find_longest_match_bounds[OF this] have "alo \<le> i" by simp
  moreover have "i + k < ahi" "0 < k" using 3 by auto
  ultimately have "ahi - (i + k) < ahi - alo" by linarith
  then show ?case by simp
qed

declare matching_blocks.simps [simp del]

definition ratio :: "'a list \<Rightarrow> 'a list \<Rightarrow> real" where
  \<comment> \<open>\<open>2.0 * matches / length\<close>, or 1.0 when both sequences are empty; the value is the
      exact quotient\<close>
  "ratio a b =
     (let matches = sum_list (map (\<lambda>(i, j, k). k) (matching_blocks a b (chain_b b) 0 (length a) 0 (length b)));
          length = length a + length b
      in if length \<noteq> 0 then 2 * real matches / real length else 1)"

text \<open>Notions for the proofs about the matcher.\<close>

definition blocks_size :: "block list \<Rightarrow> nat" where
  "blocks_size bs = sum_list (map (\<lambda>(i, j, k). k) bs)"

fun run_len :: "'a list \<Rightarrow> ('a \<Rightarrow> nat list) \<Rightarrow> nat \<Rightarrow> nat" where
  "run_len a b2j 0 = (if b2j (a ! 0) = [] then 0 else 1)"
| "run_len a b2j (Suc i) = (if b2j (a ! Suc i) = [] then 0 else run_len a b2j i + 1)"

definition good_b2j :: "'a list \<Rightarrow> ('a \<Rightarrow> nat list) \<Rightarrow> bool" where
  "good_b2j a b2j \<longleftrightarrow>
     (\<forall>i < length a. b2j (a ! i) = [] \<or>
        (sorted_wrt (<) (b2j (a ! i)) \<and> i \<in> set (b2j (a ! i))
         \<and> (\<forall>j \<in> set (b2j (a ! i)). j < length a \<and> a ! j = a ! i)))"

definition diag_row :: "'a list \<Rightarrow> ('a \<Rightarrow> nat list) \<Rightarrow> nat \<Rightarrow> (nat \<rightharpoonup> nat) \<Rightarrow> bool" where
  "diag_row a b2j i m \<longleftrightarrow>
     (\<forall>j v. m j = Some v \<longrightarrow> v \<le> run_len a b2j j \<and> v \<le> run_len a b2j i)
     \<and> m i = (if run_len a b2j i = 0 then None else Some (run_len a b2j i))"

definition prev_row :: "'a list \<Rightarrow> ('a \<Rightarrow> nat list) \<Rightarrow> nat \<Rightarrow> (nat \<rightharpoonup> nat) \<Rightarrow> bool" where
  "prev_row a b2j i m \<longleftrightarrow> (if i = 0 then m = Map.empty else diag_row a b2j (i - 1) m)"

definition diag_best :: "'a list \<Rightarrow> ('a \<Rightarrow> nat list) \<Rightarrow> nat \<Rightarrow> block \<Rightarrow> bool" where
  "diag_best a b2j i best \<longleftrightarrow>
     (case best of (bi, bj, bs) \<Rightarrow> bi = bj \<and> (\<forall>j < i. run_len a b2j j \<le> bs))"

subsection \<open>The similarity methods of the extractors\<close>

function collapse_spaces :: "string \<Rightarrow> string" where
  \<comment> \<open>\<open>re.sub(r'\s+', ' ', s)\<close>\<close>
  "collapse_spaces [] = []"
| "collapse_spaces (c # cs) =
     (if char_isspace c then CHR '' '' # collapse_spaces (dropWhile char_isspace cs)
      else c # collapse_spaces cs)"
  by pat_completeness auto
termination
  by (relation "measure length") (auto simp: less_Suc_eq_le length_dropWhile_le)

definition normalize :: "(string \<Rightarrow> string) \<Rightarrow> string \<Rightarrow> string" where
  \<comment> \<open>The local function of \<open>similarity\<close> in new\_vat\_extractor\_nl.py. The transliteration
      table of the \<open>unidecode\<close> package is not part of the repository: the function is a
      parameter.\<close>
  "normalize unidecode s =
     (let s1 = unidecode (str_lower s);
          s2 = map (\<lambda>c. if char_isword c \<or> char_isspace c then c else CHR '' '') s1;
          s3 = str_strip (collapse_spaces s2)
      in s3)"

definition nl_similarity :: "(string \<Rightarrow> string) \<Rightarrow> string \<Rightarrow> string \<Rightarrow> real" where
  \<comment> \<open>\<open>DutchKvKExtractor.similarity\<close> of new\_vat\_extractor\_nl.py\<close>
  "nl_similarity unidecode a b =
     (if a = [] \<or> b = [] then 0
      else ratio (normalize unidecode a) (normalize unidecode b))"

definition mc_uk_similarity :: "string \<Rightarrow> string \<Rightarrow> real" where
  \<comment> \<open>\<open>UKCompanyNumberExtractor.similarity\<close> of complete\_multi\_country\_vat\_extractor.py\<close>
  "mc_uk_similarity a b =
     (if a = [] \<or> b = [] then 0 else ratio (str_lower a) (str_lower b))"

definition uk_similarity :: "string \<Rightarrow> string \<Rightarrow> real" where
  \<comment> \<open>\<open>UKCompanyNumberExtractor.similarity\<close> of uk\_company\_number\_extractor.py: no test
      for empty arguments\<close>
  "uk_similarity a b = ratio (str_lower a) (str_lower b)"

section \<open>The outside world\<close>

text \<open>
  The network, the browser and the HTML parser are not part of the repository. The model
  takes them as a record of functions over an abstract world \<open>'w\<close>: a request may answer
  differently each time it is made. The state threaded through the code holds the world,
  the log of the calls made so far, and whether \<open>self.driver\<close> is set.

  An exception is caught by \<open>except Exception\<close> unless it is a \<open>KeyboardInterrupt\<close>, and by
  \<open>except requests.exceptions.RequestException\<close> when it is one of the exceptions of
  \<open>requests\<close>.
\<close>

definition is_Exception :: "py_exception \<Rightarrow> bool" where
  "is_Exception e \<longleftrightarrow> exc_class e \<noteq> KeyboardInterrupt"

definition is_RequestException :: "py_exception \<Rightarrow> bool" where
  "is_RequestException e \<longleftrightarrow> exc_class e \<in> {Timeout, ConnectionError, HTTPError, InvalidURL}"

record response =
  status_code :: nat
  reason :: string
  content_type :: "string option"
  resp_text :: string

datatype call =
    HttpGet string "(string \<times> string) list"
  | ChromeStart
  | DriverGet string
  | KvkRegisterSearch string
  | LeiLookupSearch string

record 'w state =
  world :: 'w
  calls :: "call list"
  driver :: bool

text \<open>
  What BeautifulSoup finds for the legal-name scan of a page, before the extractor's own
  tests: the stripped title text, the \<open>content\<close> of the four meta tags (by \<open>name\<close>, else by
  \<open>property\<close>), for each JSON-LD object of an accepted type its \<open>legalName\<close>, \<open>name\<close> and
  \<open>alternateName\<close> fields (stripped, empty when absent), the header texts with their tag
  names, the texts of the footer blocks, and the text of the whole document.
\<close>

record parsed_page =
  title_text :: "string option"
  meta_content :: "string \<Rightarrow> string option"
  json_ld_objects :: "(string \<times> string \<times> string) list"
  header_texts :: "(string \<times> string) list"
  footer_texts :: "string list"
  text_content :: string

record 'w net =
  http_get :: "string \<Rightarrow> (string \<times> string) list \<Rightarrow> 'w \<Rightarrow> (py_exception + response) \<times> 'w"
    \<comment> \<open>\<open>session.get(url, params=..., timeout=..., allow_redirects=True)\<close>\<close>
  find_links :: "string \<Rightarrow> (string \<times> string) list"
    \<comment> \<open>the \<open>a\<close> elements with an \<open>href\<close> of a parsed page: stripped text and \<open>href\<close>\<close>
  parse_page :: "string \<Rightarrow> parsed_page"
  unidecode :: "string \<Rightarrow> string"
  chrome_options :: "'w \<Rightarrow> (py_exception + unit) \<times> 'w"
    \<comment> \<open>the start of \<open>setup_selenium\<close>, outside its \<open>try\<close>: building the Chrome options\<close>
  chrome_start :: "'w \<Rightarrow> (py_exception + unit) \<times> 'w"
    \<comment> \<open>the \<open>try\<close> block of \<open>setup_selenium\<close>: starting the driver\<close>
  driver_page :: "string \<Rightarrow> 'w \<Rightarrow> (py_exception + string) \<times> 'w"
    \<comment> \<open>the \<open>try\<close> block of \<open>fetch_with_selenium\<close>: load, wait, scroll, read the page source\<close>
  kvk_register :: "string \<Rightarrow> 'w \<Rightarrow> (py_exception + string option \<times> string option) \<times> 'w"
    \<comment> \<open>the \<open>try\<close> block of \<open>search_kvk_register_enhanced\<close>, and what follows it: the KvK
        number and the legal name of the first detail page that gives a number\<close>
  lei_lookup :: "string \<Rightarrow> 'w \<Rightarrow> (py_exception + string option \<times> string option) \<times> 'w"
    \<comment> \<open>the \<open>try\<close> block of \<open>search_lei_lookup\<close>, and what follows it\<close>

definition session_get ::
  "'w net \<Rightarrow> string \<Rightarrow> (string \<times> string) list \<Rightarrow> 'w state \<Rightarrow> (py_exception + response) \<times> 'w state" where
  "session_get net url params st =
     (case http_get net url params (world st) of
        (r, w') \<Rightarrow> (r, st\<lparr>world := w', calls := calls st @ [HttpGet url params]\<rparr>))"

text \<open>
  A result dictionary: keys and values in insertion order. Assigning to a key that is
  there replaces its value in place; a new key goes to the end.
\<close>

type_synonym pydict = "(string \<times> string) list"

fun dict_set :: "'k \<Rightarrow> 'v \<Rightarrow> ('k \<times> 'v) list \<Rightarrow> ('k \<times> 'v) list" where
  "dict_set k v [] = [(k, v)]"
| "dict_set k v ((k', v') # d) = (if k' = k then (k, v) # d else (k', v') # dict_set k v d)"

definition dict_get :: "pydict \<Rightarrow> string \<Rightarrow> string option" where
  "dict_get d k = map_of d k"

definition dict_update :: "pydict \<Rightarrow> pydict \<Rightarrow> pydict" where
  \<comment> \<open>\<open>d.update(other)\<close>\<close>
  "dict_update d other = fold (\<lambda>(k, v) r. dict_set k v r) other d"

section \<open>The multi-country extractor (complete\_multi\_country\_vat\_extractor.py)\<close>

text \<open>Short names for the pieces the patterns are made of.\<close>

definition star :: "cset \<Rightarrow> rx" where "star cs = Rep 0 None cs"
definition plus1 :: "cset \<Rightarrow> rx" where "plus1 cs = Rep 1 None cs"
definition opt1 :: "cset \<Rightarrow> rx" where "opt1 cs = Rep 0 (Some 1) cs"
definition digits :: "nat \<Rightarrow> rx" where "digits n = Rep n (Some n) cs_digit"
definition cs_chars :: "string \<Rightarrow> cset" where "cs_chars s = CSet False (map Ch s)"
definition cs_space_colon :: cset where
  \<comment> \<open>\<open>[\s:]\<close>\<close>
  "cs_space_colon = CSet False [SpaceCls, Ch CHR '':'']"
definition cs_space_dash :: cset where
  \<comment> \<open>\<open>[\s\-]\<close>\<close>
  "cs_space_dash = CSet False [SpaceCls, Ch CHR ''-'']"
definition cs_upper :: cset where "cs_upper = CSet False [UpperRng]"

fun first_some :: "('a \<Rightarrow> 'b option) \<Rightarrow> 'a list \<Rightarrow> 'b option" where
  \<comment> \<open>a loop that returns at the first element giving a result\<close>
  "first_some f [] = None"
| "first_some f (x # xs) = (case f x of Some y \<Rightarrow> Some y | None \<Rightarrow> first_some f xs)"

text \<open>
  Every \<open>process_company\<close> of this file fetches the company's page inside
  \<open>try ... except Exception\<close> and, when the status code is 200, updates the result from the
  page text. \<open>website_step\<close> is that block; \<open>upd\<close> is what the class does with the text.
\<close>

definition website_step ::
  "'w net \<Rightarrow> string \<Rightarrow> (string \<Rightarrow> pydict \<Rightarrow> pydict) \<Rightarrow> pydict \<Rightarrow> 'w state
     \<Rightarrow> (py_exception + pydict) \<times> 'w state" where
  "website_step net company_url upd result st =
     (case session_get net company_url [] st of
        (Inl e, st') \<Rightarrow> if is_Exception e then (Inr result, st') else (Inl e, st')
      | (Inr response, st') \<Rightarrow>
          if status_code response = 200 then (Inr (upd (resp_text response) result), st')
          else (Inr result, st'))"

definition initial_result :: "string \<Rightarrow> string \<Rightarrow> pydict" where
  "initial_result company_name company_url =
     [(''company_name'', company_name), (''website'', company_url),
      (''legal_name'', company_name), (''status'', ''Not Found'')]"

definition simple_process_company ::
  "'w net \<Rightarrow> (string \<Rightarrow> pydict \<Rightarrow> pydict) \<Rightarrow> string \<Rightarrow> string \<Rightarrow> 'w state
     \<Rightarrow> (py_exception + pydict) \<times> 'w state" where
  \<comment> \<open>the \<open>process_company\<close> of the eight classes without a registry search\<close>
  "simple_process_company net upd company_name company_url st =
     (let result = initial_result company_name company_url
      in if company_url \<noteq> [] then website_step net company_url upd result st
         else (Inr result, st))"

subsection \<open>United Kingdom\<close>

definition mc_company_number_patterns :: "rx list" where
  \<open>mc_company_number_patterns =
    [\<comment> \<open>\<open>Company\s+number[\s:]*([0-9]{8})\<close>\<close>
     seqs [Lit ''Company'', plus1 cs_space, Lit ''number'', star cs_space_colon, Grp (digits 8)],
     \<comment> \<open>\<open>Company\s+No[\s.:]*([0-9]{8})\<close>\<close>
     seqs [Lit ''Company'', plus1 cs_space, Lit ''No'',
           star (CSet False [SpaceCls, Ch CHR ''.'', Ch CHR '':'']), Grp (digits 8)],
     \<comment> \<open>\<open>Registration\s+number[\s:]*([0-9]{8})\<close>\<close>
     seqs [Lit ''Registration'', plus1 cs_space, Lit ''number'', star cs_space_colon, Grp (digits 8)],
     \<comment> \<open>\<open>Registered\s+number[\s:]*([0-9]{8})\<close>\<close>
     seqs [Lit ''Registered'', plus1 cs_space, Lit ''number'', star cs_space_colon, Grp (digits 8)],
     \<comment> \<open>\<open>([0-9]{8})(?=\s*(?:Company|Registration|Registered))\<close>\<close>
     seqs [Grp (digits 8),
           Look (Seq (star cs_space) (alts [Lit ''Company'', Lit ''Registration'', Lit ''Registered'']))],
     \<comment> \<open>\<open>(?:SC|OC|SO)([0-9]{6})\<close>\<close>
     seqs [alts [Lit ''SC'', Lit ''OC'', Lit ''SO''], Grp (digits 6)]]\<close>

definition mc_extract_company_number_from_html :: "string \<Rightarrow> string option" where
  "mc_extract_company_number_from_html html_content =
     first_some (\<lambda>pattern.
       first_some (\<lambda>m.
         let code = group1_or_0 m; clean_code = digits_only code
         in if length clean_code = 8 \<and> str_isdigit clean_code then Some clean_code
            else if length clean_code = 6 \<and> str_isdigit clean_code then
              (if str_contains ''SC'' (str_upper (group0 m)) then Some (''SC'' @ clean_code)
               else if str_contains ''OC'' (str_upper (group0 m)) then Some (''OC'' @ clean_code)
               else None)
            else None)
         (re_finditer True pattern html_content))
       mc_company_number_patterns"

definition company_href :: rx where
  \<comment> \<open>\<open>/company/([0-9A-Z]{6,8})\<close>\<close>
  "company_href = Seq (Lit ''/company/'') (Grp (Rep 6 (Some 8) (CSet False [DigitRng, UpperRng])))"

definition companies_house_search_url :: string where
  "companies_house_search_url =
     ''https://find-and-update.company-information.service.gov.uk/search/companies''"

definition strip_punctuation :: "string \<Rightarrow> string" where
  \<comment> \<open>\<open>re.sub(r'[^\w\s]', '', company_name).strip()\<close>\<close>
  "strip_punctuation company_name =
     str_strip (filter (\<lambda>c. char_isword c \<or> char_isspace c) company_name)"

definition mc_search_companies_house_by_name ::
  "'w net \<Rightarrow> string \<Rightarrow> 'w state \<Rightarrow> (py_exception + string option) \<times> 'w state" where
  "mc_search_companies_house_by_name net company_name st =
     (let clean_name = strip_punctuation company_name
      in case session_get net companies_house_search_url [(''q'', clean_name)] st of
           (Inl e, st') \<Rightarrow> if is_Exception e then (Inr None, st') else (Inl e, st')
         | (Inr response, st') \<Rightarrow>
             if status_code response = 200 then
               (let company_links =
                      filter (\<lambda>(company_text, href). re_search False company_href href \<noteq> None)
                        (find_links net (resp_text response))
                in (Inr (first_some (\<lambda>(company_text, href).
                       case re_search False company_href href of
                         None \<Rightarrow> None
                       | Some m \<Rightarrow>
                           (let company_number = groups m ! 0
                            in if 0.6 < mc_uk_similarity (str_lower company_text) (str_lower company_name)
                               then Some company_number else None))
                     company_links), st'))
             else (Inr None, st'))"

definition mc_uk_website_update :: "string \<Rightarrow> pydict \<Rightarrow> pydict" where
  "mc_uk_website_update page result =
     (case mc_extract_company_number_from_html page of
        Some website_company_number \<Rightarrow>
          dict_set ''status'' ''Found'' (dict_set ''company_number'' website_company_number result)
      | None \<Rightarrow> result)"

definition mc_uk_process_company ::
  "'w net \<Rightarrow> string \<Rightarrow> string \<Rightarrow> 'w state \<Rightarrow> (py_exception + pydict) \<times> 'w state" where
  "mc_uk_process_company net company_name company_url st =
     (let result = [(''company_name'', company_name), (''website'', company_url),
                    (''legal_name'', company_name), (''company_number'', []),
                    (''status'', ''Not Found'')]
      in case mc_search_companies_house_by_name net company_name st of
           (Inl e, st1) \<Rightarrow> if is_Exception e then (Inr result, st1) else (Inl e, st1)
         | (Inr company_number, st1) \<Rightarrow>
             (let result1 = (case company_number of
                               Some n \<Rightarrow> if n \<noteq> []
                                         then dict_set ''status'' ''Found'' (dict_set ''company_number'' n result)
                                         else result
                             | None \<Rightarrow> result)
              in if company_url \<noteq> [] then website_step net company_url mc_uk_website_update result1 st1
                 else (Inr result1, st1)))"

subsection \<open>Germany\<close>

definition tax_number_body :: rx where
  \<comment> \<open>\<open>[0-9]{2,3}\/[0-9]{3,4}\/[0-9]{4,5}\<close>\<close>
  "tax_number_body =
     seqs [Rep 2 (Some 3) cs_digit, Lit ''/'', Rep 3 (Some 4) cs_digit, Lit ''/'', Rep 4 (Some 5) cs_digit]"

definition vat_id_body :: rx where
  \<comment> \<open>\<open>[A-Z]{2}[0-9]{9}\<close>\<close>
  "vat_id_body = Seq (Rep 2 (Some 2) cs_upper) (digits 9)"

definition mc_tax_patterns :: "rx list" where
  \<open>mc_tax_patterns =
    [\<comment> \<open>\<open>Steuernummer[\s#:]*(...)\<close>\<close>
     seqs [Lit ''Steuernummer'', star cs_sep, Grp tax_number_body],
     \<comment> \<open>\<open>Steuer-Nr\.?[\s#:]*(...)\<close>\<close>
     seqs [Lit ''Steuer-Nr'', opt1 (cs_chars ''.''), star cs_sep, Grp tax_number_body],
     \<comment> \<open>\<open>St\.?\s*Nr\.?[\s#:]*(...)\<close>\<close>
     seqs [Lit ''St'', opt1 (cs_chars ''.''), star cs_space, Lit ''Nr'', opt1 (cs_chars ''.''),
           star cs_sep, Grp tax_number_body],
     \<comment> \<open>\<open>Tax\s*ID[\s#:]*(...)\<close>\<close>
     seqs [Lit ''Tax'', star cs_space, Lit ''ID'', star cs_sep, Grp tax_number_body],
     \<comment> \<open>\<open>Umsatzsteuer-ID[\s#:]*([A-Z]{2}[0-9]{9})\<close>\<close>
     seqs [Lit ''Umsatzsteuer-ID'', star cs_sep, Grp vat_id_body],
     \<comment> \<open>\<open>USt-IdNr\.?[\s#:]*([A-Z]{2}[0-9]{9})\<close>\<close>
     seqs [Lit ''USt-IdNr'', opt1 (cs_chars ''.''), star cs_sep, Grp vat_id_body],
     \<comment> \<open>\<open>Handelsregister[\s#:]*([A-Z]{2,3}\s*[0-9]+)\<close>\<close>
     seqs [Lit ''Handelsregister'', star cs_sep,
           Grp (seqs [Rep 2 (Some 3) cs_upper, star cs_space, plus1 cs_digit])],
     \<comment> \<open>\<open>HRB[\s#:]*([0-9]+)\<close>\<close>
     seqs [Lit ''HRB'', star cs_sep, Grp (plus1 cs_digit)],
     \<comment> \<open>\<open>HRA[\s#:]*([0-9]+)\<close>\<close>
     seqs [Lit ''HRA'', star cs_sep, Grp (plus1 cs_digit)]]\<close>

definition classify_tax_number :: "string \<Rightarrow> (string \<times> string) list" where
  \<comment> \<open>the four \<open>re.match\<close> tests on the stripped code, case-sensitive, anchored at both ends\<close>
  "classify_tax_number clean_code =
     (if re_match False (seqs [Bol, tax_number_body, Eol]) clean_code \<noteq> None
        then [(''Steuernummer'', clean_code)]
      else if re_match False (seqs [Bol, vat_id_body, Eol]) clean_code \<noteq> None
        then [(''USt-IdNr'', clean_code)]
      else if re_match False (seqs [Bol, Rep 2 (Some 3) cs_upper, star cs_space, plus1 cs_digit, Eol]) clean_code \<noteq> None
        then [(''Handelsregister'', clean_code)]
      else if re_match False (seqs [Bol, plus1 cs_digit, Eol]) clean_code \<noteq> None
        then [(''Handelsregister'', clean_code)]
      else [])"

definition mc_extract_tax_number_from_html :: "string \<Rightarrow> (string \<times> string) list" where
  "mc_extract_tax_number_from_html html_content =
     concat (map (\<lambda>pattern.
       concat (map (\<lambda>m. classify_tax_number (str_strip (group1_or_0 m)))
         (re_finditer True pattern html_content)))
       mc_tax_patterns)"

definition result_key :: "string \<Rightarrow> string" where
  \<comment> \<open>\<open>number_type.lower().replace('-', '_')\<close>\<close>
  "result_key number_type = map (\<lambda>c. if c = CHR ''-'' then CHR ''_'' else c) (str_lower number_type)"

definition mc_de_website_update :: "string \<Rightarrow> pydict \<Rightarrow> pydict" where
  "mc_de_website_update page result =
     (let found_numbers = mc_extract_tax_number_from_html page
      in if found_numbers \<noteq> []
         then dict_set ''status'' ''Found''
                (fold (\<lambda>(number_type, number_value) r. dict_set (result_key number_type) number_value r)
                   found_numbers result)
         else result)"

subsection \<open>France\<close>

definition mc_siren_patterns :: "rx list" where
  \<open>mc_siren_patterns =
    [\<comment> \<open>\<open>SIREN[\s#:]*([0-9]{9})\<close>\<close>
     seqs [Lit ''SIREN'', star cs_sep, Grp (digits 9)],
     \<comment> \<open>\<open>(?:N.\s*SIREN|Num.ro\s*SIREN)[\s#:]*([0-9]{9})\<close>, where the first dot stands for the
         degree sign (character 176) and the second for e with acute accent (character 233)\<close>
     seqs [Alt (seqs [Lit (''N'' @ [CHR 0xB0]), star cs_space, Lit ''SIREN''])
               (seqs [Lit (''Num'' @ [CHR 0xE9] @ ''ro''), star cs_space, Lit ''SIREN'']),
           star cs_sep, Grp (digits 9)],
     \<comment> \<open>\<open>SIREN\s*:?\s*([0-9]{3}[\s\-]?[0-9]{3}[\s\-]?[0-9]{3})\<close>\<close>
     seqs [Lit ''SIREN'', star cs_space, opt1 (cs_chars '':''), star cs_space,
           Grp (seqs [digits 3, opt1 cs_space_dash, digits 3, opt1 cs_space_dash, digits 3])]]\<close>

definition extract_digits :: "rx list \<Rightarrow> nat \<Rightarrow> string \<Rightarrow> string option" where
  \<comment> \<open>the extraction loop of the French, Italian and Dutch classes: the first match whose
      digits number \<open>n\<close>\<close>
  "extract_digits patterns n html_content =
     first_some (\<lambda>pattern.
       first_some (\<lambda>m.
         let code = group1_or_0 m; clean_code = digits_only code
         in if length clean_code = n \<and> str_isdigit clean_code then Some clean_code else None)
         (re_finditer True pattern html_content))
       patterns"

definition mc_extract_siren_from_html :: "string \<Rightarrow> string option" where
  "mc_extract_siren_from_html html_content = extract_digits mc_siren_patterns 9 html_content"

definition found_update :: "string \<Rightarrow> string option \<Rightarrow> pydict \<Rightarrow> pydict" where
  \<comment> \<open>\<open>if x: result[key] = x; result['status'] = 'Found'\<close>\<close>
  "found_update key x result =
     (case x of
        Some v \<Rightarrow> if v \<noteq> [] then dict_set ''status'' ''Found'' (dict_set key v result) else result
      | None \<Rightarrow> result)"

definition mc_fr_website_update :: "string \<Rightarrow> pydict \<Rightarrow> pydict" where
  "mc_fr_website_update page result = found_update ''siren'' (mc_extract_siren_from_html page) result"

subsection \<open>Italy\<close>

definition mc_vat_patterns_it :: "rx list" where
  \<open>mc_vat_patterns_it =
    [\<comment> \<open>\<open>P\.?\s*IVA[\s#:]*([0-9]{11})\<close>\<close>
     seqs [Lit ''P'', opt1 (cs_chars ''.''), star cs_space, Lit ''IVA'', star cs_sep, Grp (digits 11)],
     \<comment> \<open>\<open>Partita\s+IVA[\s#:]*([0-9]{11})\<close>\<close>
     seqs [Lit ''Partita'', plus1 cs_space, Lit ''IVA'', star cs_sep, Grp (digits 11)],
     \<comment> \<open>\<open>Codice\s+Fiscale[\s#:]*([0-9]{11})\<close>\<close>
     seqs [Lit ''Codice'', plus1 cs_space, Lit ''Fiscale'', star cs_sep, Grp (digits 11)],
     \<comment> \<open>\<open>C\.\s*F\.?[\s#:]*([0-9]{11})\<close>\<close>
     seqs [Lit ''C.'', star cs_space, Lit ''F'', opt1 (cs_chars ''.''), star cs_sep, Grp (digits 11)],
     \<comment> \<open>\<open>CF[\s#:]*([0-9]{11})\<close>\<close>
     seqs [Lit ''CF'', star cs_sep, Grp (digits 11)],
     \<comment> \<open>\<open>VAT[\s#:]*IT([0-9]{11})\<close>\<close>
     seqs [Lit ''VAT'', star cs_sep, Lit ''IT'', Grp (digits 11)]]\<close>

definition mc_extract_vat_from_html_it :: "string \<Rightarrow> string option" where
  "mc_extract_vat_from_html_it html_content = extract_digits mc_vat_patterns_it 11 html_content"

definition mc_it_website_update :: "string \<Rightarrow> pydict \<Rightarrow> pydict" where
  "mc_it_website_update page result =
     found_update ''partita_iva'' (mc_extract_vat_from_html_it page) result"

subsection \<open>Portugal\<close>

definition mc_nif_patterns :: "rx list" where
  \<open>mc_nif_patterns =
    [\<comment> \<open>\<open>NIF[\s:]*([0-9]{9})\<close>\<close>
     seqs [Lit ''NIF'', star cs_space_colon, Grp (digits 9)],
     \<comment> \<open>\<open>N\.?I\.?F\.?[\s:]*([0-9]{9})\<close>\<close>
     seqs [Lit ''N'', opt1 (cs_chars ''.''), Lit ''I'', opt1 (cs_chars ''.''), Lit ''F'',
           opt1 (cs_chars ''.''), star cs_space_colon, Grp (digits 9)],
     \<comment> \<open>\<open>Contribuinte[\s:]*([0-9]{9})\<close>\<close>
     seqs [Lit ''Contribuinte'', star cs_space_colon, Grp (digits 9)],
     \<comment> \<open>\<open>NIPC[\s:]*([0-9]{9})\<close>\<close>
     seqs [Lit ''NIPC'', star cs_space_colon, Grp (digits 9)],
     \<comment> \<open>\<open>\b([0-9]{9})\b(?=\s*contribuinte)\<close>\<close>
     seqs [WordBoundary, Grp (digits 9), WordBoundary,
           Look (Seq (star cs_space) (Lit ''contribuinte''))]]\<close>

definition mc_extract_nif_from_text :: "string \<Rightarrow> string option" where
  "mc_extract_nif_from_text page =
     first_some (\<lambda>pattern.
       first_some (\<lambda>m.
         let nif = group1_or_0 m
         in if length nif = 9 \<and> str_isdigit nif \<and> hd nif \<in> set ''123456789'' then Some nif
            else None)
         (re_finditer True pattern page))
       mc_nif_patterns"

definition mc_pt_website_update :: "string \<Rightarrow> pydict \<Rightarrow> pydict" where
  "mc_pt_website_update page result = found_update ''nif'' (mc_extract_nif_from_text page) result"

subsection \<open>Netherlands\<close>

definition mc_kvk_patterns :: "rx list" where
  \<open>mc_kvk_patterns =
    [\<comment> \<open>\<open>KvK[\s#:]*([0-9]{8})\<close>\<close>
     seqs [Lit ''KvK'', star cs_sep, Grp (digits 8)],
     \<comment> \<open>\<open>KvK-nummer[\s#:]*([0-9]{8})\<close>\<close>
     seqs [Lit ''KvK-nummer'', star cs_sep, Grp (digits 8)],
     \<comment> \<open>\<open>Kamer\s+van\s+Koophandel[\s#:]*([0-9]{8})\<close>\<close>
     seqs [Lit ''Kamer'', plus1 cs_space, Lit ''van'', plus1 cs_space, Lit ''Koophandel'',
           star cs_sep, Grp (digits 8)],
     \<comment> \<open>\<open>Chamber\s+of\s+Commerce[\s#:]*([0-9]{8})\<close>\<close>
     seqs [Lit ''Chamber'', plus1 cs_space, Lit ''of'', plus1 cs_space, Lit ''Commerce'',
           star cs_sep, Grp (digits 8)],
     \<comment> \<open>\<open>CoC[\s#:]*([0-9]{8})\<close>\<close>
     seqs [Lit ''CoC'', star cs_sep, Grp (digits 8)]]\<close>

definition mc_btw_patterns :: "rx list" where
  \<open>mc_btw_patterns =
    [\<comment> \<open>\<open>BTW[\s#:]*(?:NL)?([0-9]{9})B[0-9]{2}\<close>\<close>
     seqs [Lit ''BTW'', star cs_sep, Opt (Lit ''NL''), Grp (digits 9), Lit ''B'', digits 2],
     \<comment> \<open>\<open>VAT[\s#:]*(?:NL)?([0-9]{9})B[0-9]{2}\<close>\<close>
     seqs [Lit ''VAT'', star cs_sep, Opt (Lit ''NL''), Grp (digits 9), Lit ''B'', digits 2],
     \<comment> \<open>\<open>NL([0-9]{9})B[0-9]{2}\<close>\<close>
     seqs [Lit ''NL'', Grp (digits 9), Lit ''B'', digits 2]]\<close>

definition mc_extract_kvk_from_html :: "string \<Rightarrow> string option" where
  "mc_extract_kvk_from_html html_content = extract_digits mc_kvk_patterns 8 html_content"

definition mc_extract_btw_from_html :: "string \<Rightarrow> string option" where
  "mc_extract_btw_from_html html_content = extract_digits mc_btw_patterns 9 html_content"

definition mc_nl_website_update :: "string \<Rightarrow> pydict \<Rightarrow> pydict" where
  "mc_nl_website_update page result =
     (let kvk = mc_extract_kvk_from_html page;
          btw = mc_extract_btw_from_html page
      in found_update ''btw'' btw (found_update ''kvk'' kvk result))"

subsection \<open>Austria\<close>

text \<open>
  The Austrian and the Luxembourg class test how the text of the pattern starts; a pattern
  is kept with the literal text it starts with.
\<close>

definition mc_vat_patterns_at :: "(string \<times> rx) list" where
  \<open>mc_vat_patterns_at =
    [\<comment> \<open>\<open>ATU\s*([0-9]{8})\<close>\<close>
     (''ATU'', seqs [Lit ''ATU'', star cs_space, Grp (digits 8)]),
     \<comment> \<open>\<open>VAT\s*ID[\s:\-]*ATU\s*([0-9]{8})\<close>\<close>
     (''VAT'', seqs [Lit ''VAT'', star cs_space, Lit ''ID'',
                     star (CSet False [SpaceCls, Ch CHR '':'', Ch CHR ''-'']),
                     Lit ''ATU'', star cs_space, Grp (digits 8)]),
     \<comment> \<open>\<open>Umsatzsteuer[\-\s]*(?:ID|nummer)[\s:\-]*ATU\s*([0-9]{8})\<close>\<close>
     (''Umsatzsteuer'', seqs [Lit ''Umsatzsteuer'', star cs_space_dash, Alt (Lit ''ID'') (Lit ''nummer''),
                     star (CSet False [SpaceCls, Ch CHR '':'', Ch CHR ''-'']),
                     Lit ''ATU'', star cs_space, Grp (digits 8)]),
     \<comment> \<open>\<open>FN\s*([0-9]{6}[a-z])\<close>\<close>
     (''FN'', seqs [Lit ''FN'', star cs_space, Grp (Seq (digits 6) (In (CSet False [LowerRng])))])]\<close>

definition mc_extract_vat_from_html_at :: "string \<Rightarrow> string option" where
  "mc_extract_vat_from_html_at html_content =
     first_some (\<lambda>(pattern_text, pattern).
       first_some (\<lambda>m.
         let code = group1_or_0 m
         in if startswith pattern_text ''ATU'' \<and> length code = 8 \<and> str_isdigit code
              then Some (''ATU'' @ code)
            else if startswith pattern_text ''FN'' \<and> length code = 7 then Some (''FN'' @ code)
            else None)
         (re_finditer True pattern html_content))
       mc_vat_patterns_at"

definition mc_at_website_update :: "string \<Rightarrow> pydict \<Rightarrow> pydict" where
  "mc_at_website_update page result = found_update ''vat'' (mc_extract_vat_from_html_at page) result"

subsection \<open>Switzerland\<close>

definition che_body :: rx where
  \<comment> \<open>\<open>CHE[\s\-]?([0-9]{3})[\s\-\.]?([0-9]{3})[\s\-\.]?([0-9]{3})\<close>\<close>
  "che_body =
     seqs [Lit ''CHE'', opt1 cs_space_dash, Grp (digits 3),
           opt1 (CSet False [SpaceCls, Ch CHR ''-'', Ch CHR ''.'']), Grp (digits 3),
           opt1 (CSet False [SpaceCls, Ch CHR ''-'', Ch CHR ''.'']), Grp (digits 3)]"

definition mc_uid_patterns :: "rx list" where
  \<open>mc_uid_patterns =
    [che_body,
     \<comment> \<open>\<open>UID[\s:]*CHE...\<close>\<close>
     seqs [Lit ''UID'', star cs_space_colon, che_body]]\<close>

definition mc_extract_uid_from_html :: "string \<Rightarrow> string option" where
  "mc_extract_uid_from_html html_content =
     first_some (\<lambda>pattern.
       first_some (\<lambda>m.
         if 3 \<le> length (groups m)
         then Some (''CHE-'' @ groups m ! 0 @ ''.'' @ groups m ! 1 @ ''.'' @ groups m ! 2)
         else None)
         (re_finditer True pattern html_content))
       mc_uid_patterns"

definition mc_ch_website_update :: "string \<Rightarrow> pydict \<Rightarrow> pydict" where
  "mc_ch_website_update page result = found_update ''uid'' (mc_extract_uid_from_html page) result"

subsection \<open>Luxembourg\<close>

definition mc_vat_patterns_lu :: "(string \<times> rx) list" where
  \<open>mc_vat_patterns_lu =
    [\<comment> \<open>\<open>LU\s*([0-9]{8})\<close>\<close>
     (''LU'', seqs [Lit ''LU'', star cs_space, Grp (digits 8)]),
     \<comment> \<open>\<open>VAT[\s:]*LU\s*([0-9]{8})\<close>\<close>
     (''VAT'', seqs [Lit ''VAT'', star cs_space_colon, Lit ''LU'', star cs_space, Grp (digits 8)]),
     \<comment> \<open>\<open>B\s*([0-9]{6})\<close>\<close>
     (''B'', seqs [Lit ''B'', star cs_space, Grp (digits 6)])]\<close>

definition mc_extract_codes_from_html_lu :: "string \<Rightarrow> pydict" where
  "mc_extract_codes_from_html_lu html_content =
     fold (\<lambda>(pattern_text, pattern) results.
       fold (\<lambda>m results.
         let code = group1_or_0 m
         in if startswith pattern_text ''LU'' \<and> length code = 8
              then dict_set ''vat'' (''LU'' @ code) results
            else if startswith pattern_text ''B'' \<and> length code = 6
              then dict_set ''registration_no'' (''B'' @ code) results
            else results)
         (re_finditer True pattern html_content) results)
       mc_vat_patterns_lu []"

definition mc_lu_website_update :: "string \<Rightarrow> pydict \<Rightarrow> pydict" where
  "mc_lu_website_update page result =
     (let codes = mc_extract_codes_from_html_lu page
      in if codes \<noteq> [] then dict_set ''status'' ''Found'' (dict_update result codes) else result)"

subsection \<open>The dispatcher and the batch loop\<close>

datatype extractor = GB | DE | FR | IT | PT | NL | AT | CH | LU

definition COUNTRY_CODES :: "(string \<times> string) list" where
  "COUNTRY_CODES =
     [(''AT'', ''Austria''), (''CH'', ''Switzerland''), (''DE'', ''Germany''), (''FR'', ''France''),
      (''GB'', ''United Kingdom''), (''IT'', ''Italy''), (''LU'', ''Luxembourg''),
      (''NL'', ''Netherlands''), (''PT'', ''Portugal'')]"

definition extractors :: "(string \<times> extractor) list" where
  "extractors =
     [(''GB'', GB), (''DE'', DE), (''FR'', FR), (''IT'', IT), (''PT'', PT), (''NL'', NL),
      (''AT'', AT), (''CH'', CH), (''LU'', LU)]"

fun process_company ::
  "extractor \<Rightarrow> 'w net \<Rightarrow> string \<Rightarrow> string \<Rightarrow> 'w state \<Rightarrow> (py_exception + pydict) \<times> 'w state" where
  "process_company GB net n u st = mc_uk_process_company net n u st"
| "process_company DE net n u st = simple_process_company net mc_de_website_update n u st"
| "process_company FR net n u st = simple_process_company net mc_fr_website_update n u st"
| "process_company IT net n u st = simple_process_company net mc_it_website_update n u st"
| "process_company PT net n u st = simple_process_company net mc_pt_website_update n u st"
| "process_company NL net n u st = simple_process_company net mc_nl_website_update n u st"
| "process_company AT net n u st = simple_process_company net mc_at_website_update n u st"
| "process_company CH net n u st = simple_process_company net mc_ch_website_update n u st"
| "process_company LU net n u st = simple_process_company net mc_lu_website_update n u st"

definition process_single_company ::
  "'w net \<Rightarrow> string \<Rightarrow> string \<Rightarrow> string \<Rightarrow> 'w state \<Rightarrow> (py_exception + pydict) \<times> 'w state" where
  "process_single_company net company_name website country_code st =
     (case map_of extractors country_code of
        Some x \<Rightarrow> process_company x net company_name website st
      | None \<Rightarrow>
          (Inr [(''company_name'', company_name), (''website'', website),
                (''country'', (case map_of COUNTRY_CODES country_code of
                                 Some name \<Rightarrow> name | None \<Rightarrow> country_code)),
                (''status'', ''Country not supported'')], st))"

subsection \<open>A fixed world\<close>

text \<open>
  For evaluating the code on a concrete input: a world without state, in which a request
  is answered by its URL alone and the browser does not start, the registry and the LEI
  site give nothing, and an ASCII text is its own transliteration.
\<close>

definition empty_page :: parsed_page where
  "empty_page =
     \<lparr>title_text = None, meta_content = (\<lambda>name. None), json_ld_objects = [], header_texts = [],
      footer_texts = [], text_content = []\<rparr>"

definition fixed_net ::
  "(string \<Rightarrow> py_exception + response) \<Rightarrow> (string \<Rightarrow> (string \<times> string) list) \<Rightarrow> (string \<Rightarrow> parsed_page) \<Rightarrow> unit net" where
  "fixed_net pages links parsed =
     \<lparr>http_get = (\<lambda>url params w. (pages url, w)),
      find_links = links,
      parse_page = parsed,
      unidecode = (\<lambda>s. s),
      chrome_options = (\<lambda>w. (Inr (), w)),
      chrome_start = (\<lambda>w. (Inl (PyExc WebDriverException ''chromedriver not found''), w)),
      driver_page = (\<lambda>url w. (Inl (PyExc WebDriverException ''no session''), w)),
      kvk_register = (\<lambda>name w. (Inr (None, None), w)),
      lei_lookup = (\<lambda>name w. (Inr (None, None), w))\<rparr>"

definition html_page :: "string \<Rightarrow> py_exception + response" where
  "html_page t = Inr \<lparr>status_code = 200, reason = ''OK'', content_type = Some ''text/html'', resp_text = t\<rparr>"

definition start_state :: "unit state" where
  "start_state = \<lparr>world = (), calls = [], driver = False\<rparr>"

section \<open>The RSIN/BTW checksum\<close>

lemma ascii_digit_isdigit: "is_ascii_digit c \<Longrightarrow> char_isdigit c"
  by (simp add: char_isdigit_def)

lemma digits_of_ascii:
  "list_all is_ascii_digit s \<Longrightarrow> digits_of s = Inr (map digit_value s)"
  by (induction s) (simp_all add: int_of_digit_def digit_value_def)

lemma length9_explicit:
  assumes "length s = 9"
  obtains a0 a1 a2 a3 a4 a5 a6 a7 a8 where "s = [a0, a1, a2, a3, a4, a5, a6, a7, a8]"
proof -
  from assms obtain a0 s1 where s0: "s = a0 # s1" "length s1 = 8" by (cases s) auto
  then obtain a1 s2 where s1: "s1 = a1 # s2" "length s2 = 7" by (cases s1) auto
  then obtain a2 s3 where s2: "s2 = a2 # s3" "length s3 = 6" by (cases s2) auto
  then obtain a3 s4 where s3: "s3 = a3 # s4" "length s4 = 5" by (cases s3) auto
  then obtain a4 s5 where s4: "s4 = a4 # s5" "length s5 = 4" by (cases s4) auto
  then obtain a5 s6 where s5: "s5 = a5 # s6" "length s6 = 3" by (cases s5) auto
  then obtain a6 s7 where s6: "s6 = a6 # s7" "length s7 = 2" by (cases s6) auto
  then obtain a7 s8 where s7: "s7 = a7 # s8" "length s8 = 1" by (cases s7) auto
  then obtain a8 where s8: "s8 = [a8]" by (cases s8) auto
  show ?thesis using that[of a0 a1 a2 a3 a4 a5 a6 a7 a8] s0 s1 s2 s3 s4 s5 s6 s7 s8 by simp
qed

lemma sum_upt8:
  "(\<Sum>i\<leftarrow>[0..<8]. f i) = f 0 + f 1 + f 2 + f 3 + f 4 + f 5 + f 6 + (f 7 :: int)"
  by (simp add: upt_rec numeral_eq_Suc)

lemma validate_rsin_ascii:
  assumes "length s = 9" "list_all is_ascii_digit s"
  shows "validate_rsin_number s = Inr (rsin_rule s)"
proof -
  have d: "digits_of s = Inr (map digit_value s)" by (rule digits_of_ascii[OF assms(2)])
  have isd: "str_isdigit s" using assms
    by (auto simp: str_isdigit_def list_all_iff ascii_digit_isdigit)
  have ne: "s \<noteq> []" using assms by auto
  have nth: "\<And>i. i < 9 \<Longrightarrow> map digit_value s ! i = digit_value (s ! i)"
    using assms by simp
  have sm: "(\<Sum>i\<leftarrow>[0..<8]. map digit_value s ! i * (9 - int i)) = (\<Sum>i\<leftarrow>[0..<8]. digit_value (s ! i) * (9 - int i))"
    by (simp add: sum_upt8 nth)
  show ?thesis
    by (simp add: validate_rsin_number_def ne assms(1) isd d sm nth rsin_rule_def rsin_checksum_def Let_def)
qed

lemma digit_value_range: "is_ascii_digit c \<Longrightarrow> 0 \<le> digit_value c \<and> digit_value c \<le> 9"
  by (auto simp: is_ascii_digit_def digit_value_def)

lemma digit_value_inj: "is_ascii_digit c \<Longrightarrow> is_ascii_digit d \<Longrightarrow> digit_value c = digit_value d \<Longrightarrow> c = d"
  by (auto simp: is_ascii_digit_def digit_value_def)

lemma shift_dvd: "((S::int) + x) mod 11 = S mod 11 \<longleftrightarrow> 11 dvd x"
  by (metis add_diff_cancel_left' mod_eq_dvd_iff)

lemma k_cases: "- 9 \<le> (k::int) \<Longrightarrow> k \<le> 9 \<Longrightarrow> k \<in> {-9,-8,-7,-6,-5,-4,-3,-2,-1,0,1,2,3,4,5,6,7,8,9}"
  by simp arith

lemma weight_shift:
  fixes S k :: int
  assumes "w \<in> {2,3,4,5,6,7,8,9::int}" "- 9 \<le> k" "k \<le> 9" "k \<noteq> 0"
  shows "(S + k * w) mod 11 \<noteq> S mod 11"
proof -
  have "\<not> 11 dvd k * w"
    using assms(1) k_cases[OF assms(2,3)] assms(4) by (elim insertE emptyE; simp)
  then show ?thesis by (simp add: shift_dvd)
qed

lemma lt8_cases: "i < 8 \<Longrightarrow> i \<in> {0,1,2,3,4,5,6,7::nat}"
  by auto

lemma weighted_sum_update:
  assumes "length s = 9" "i < 8"
  shows "weighted_sum (s[i := c]) = weighted_sum s + (digit_value c - digit_value (s ! i)) * (9 - int i)"
proof -
  from assms(1) obtain a0 a1 a2 a3 a4 a5 a6 a7 a8 where s: "s = [a0, a1, a2, a3, a4, a5, a6, a7, a8]"
    by (rule length9_explicit)
  show ?thesis
    using lt8_cases[OF assms(2)]
    by (elim insertE emptyE; simp add: s weighted_sum_def sum_upt8 algebra_simps)
qed

lemma weighted_sum_update8:
  assumes "length s = 9"
  shows "weighted_sum (s[8 := c]) = weighted_sum s"
proof -
  from assms(1) obtain a0 a1 a2 a3 a4 a5 a6 a7 a8 where s: "s = [a0, a1, a2, a3, a4, a5, a6, a7, a8]"
    by (rule length9_explicit)
  show ?thesis by (simp add: s weighted_sum_def sum_upt8)
qed

lemma check_digit_collision:
  fixes C C' :: int
  assumes "0 \<le> C" "C < 11" "0 \<le> C'" "C' < 11" "C \<noteq> C'"
  shows "(if C < 2 then C else 11 - C) = (if C' < 2 then C' else 11 - C') \<longleftrightarrow> {C, C'} = {1, 10}"
  using assms by (auto simp: doubleton_eq_iff)

lemma rsin_mutation:
  assumes len: "length s = 9" and dig: "list_all is_ascii_digit s" and ok: "rsin_rule s"
    and i: "i < 9" and c: "is_ascii_digit c" and ne: "c \<noteq> s ! i"
  shows "rsin_rule (s[i := c]) \<longleftrightarrow> i < 8 \<and> {rsin_checksum s, rsin_checksum (s[i := c])} = {1, 10}"
proof (cases "i < 8")
  case True
  have si: "is_ascii_digit (s ! i)" using dig len i by (simp add: list_all_length)
  let ?k = "digit_value c - digit_value (s ! i)"
  have k: "- 9 \<le> ?k" "?k \<le> 9" "?k \<noteq> 0"
    using digit_value_range[OF c] digit_value_range[OF si] digit_value_inj[OF c si] ne by auto
  have w: "9 - int i \<in> {2,3,4,5,6,7,8,9::int}"
    using lt8_cases[OF True] by auto
  have neq: "rsin_checksum (s[i := c]) \<noteq> rsin_checksum s"
    using weight_shift[OF w k, of "weighted_sum s"] weighted_sum_update[OF len True, of c]
    by (simp add: rsin_checksum_def weighted_sum_def)
  have d8: "s[i := c] ! 8 = s ! 8" using True by simp
  have rng: "0 \<le> rsin_checksum s" "rsin_checksum s < 11"
            "0 \<le> rsin_checksum (s[i := c])" "rsin_checksum (s[i := c]) < 11"
    by (simp_all add: rsin_checksum_def)
  have "rsin_rule (s[i := c]) \<longleftrightarrow>
        (if rsin_checksum s < 2 then rsin_checksum s else 11 - rsin_checksum s) =
        (if rsin_checksum (s[i := c]) < 2 then rsin_checksum (s[i := c]) else 11 - rsin_checksum (s[i := c]))"
    using ok unfolding rsin_rule_def d8 by (auto split: if_splits)
  also have "\<dots> \<longleftrightarrow> {rsin_checksum s, rsin_checksum (s[i := c])} = {1, 10}"
    using check_digit_collision[OF rng] neq by simp
  finally show ?thesis using True by simp
next
  case False
  then have i8: "i = 8" using i by simp
  have s8: "is_ascii_digit (s ! 8)" using dig len by (simp add: list_all_length)
  have cs: "rsin_checksum (s[8 := c]) = rsin_checksum s"
    using weighted_sum_update8[OF len, of c] by (simp add: rsin_checksum_def weighted_sum_def)
  have "digit_value c \<noteq> digit_value (s ! 8)"
    using digit_value_inj[OF c s8] ne i8 by auto
  then have "\<not> rsin_rule (s[8 := c])"
    using ok len unfolding rsin_rule_def cs by (auto split: if_splits)
  then show ?thesis using i8 by simp
qed


lemma validate_btw_eq_rsin: "validate_btw_number s = validate_rsin_number s"
  by (simp add: validate_btw_number_def validate_rsin_number_def)

lemma validate_rsin_not_nine_digits:
  assumes "length t \<noteq> 9 \<or> \<not> list_all char_isdigit t"
  shows "validate_rsin_number t = Inr False"
  using assms by (auto simp: validate_rsin_number_def str_isdigit_def)

text \<open>
  A string of nine characters that all pass \<open>isdigit\<close> but are not all decimal digits makes
  the list comprehension raise: \<open>int\<close> rejects a superscript digit.
\<close>

lemma validate_rsin_number_superscript_raises:
  "validate_rsin_number (''12345678'' @ [CHR 0xB2]) =
     Inl (PyExc ValueError (''invalid literal for int() with base 10: '' @ [CHR 0x27, CHR 0xB2, CHR 0x27]))"
  by (simp add: validate_rsin_number_def str_isdigit_def char_isdigit_def is_ascii_digit_def
      int_of_digit_def)

text \<open>
  Claim C1, as the code has it. For a string of nine decimal digits the validator returns
  exactly the checksum rule (and the BTW validator, which delegates, the same); a string
  whose length is not nine or that holds a character failing \<open>isdigit\<close> is rejected; and
  replacing one digit of a valid number by a different digit gives an invalid number
  except when the position is among the first eight and the checksums before and after
  are 1 and 10, which both ask for the check digit 1.
\<close>

theorem validate_rsin_number_checksum:
  "(length s = 9 \<and> list_all is_ascii_digit s \<longrightarrow>
      validate_rsin_number s = Inr (rsin_rule s) \<and> validate_btw_number s = Inr (rsin_rule s))
   \<and> (length t \<noteq> 9 \<or> \<not> list_all char_isdigit t \<longrightarrow>
      validate_rsin_number t = Inr False \<and> validate_btw_number t = Inr False)
   \<and> (length u = 9 \<and> list_all is_ascii_digit u \<and> validate_rsin_number u = Inr True
        \<and> i < 9 \<and> is_ascii_digit c \<and> c \<noteq> u ! i \<longrightarrow>
      validate_rsin_number (u[i := c]) =
        Inr (i < 8 \<and> {rsin_checksum u, rsin_checksum (u[i := c])} = {1, 10}))"
proof (intro conjI impI)
  assume "length s = 9 \<and> list_all is_ascii_digit s"
  then show "validate_rsin_number s = Inr (rsin_rule s)" by (simp add: validate_rsin_ascii)
  then show "validate_btw_number s = Inr (rsin_rule s)" by (simp add: validate_btw_eq_rsin)
next
  assume "length t \<noteq> 9 \<or> \<not> list_all char_isdigit t"
  then show "validate_rsin_number t = Inr False" by (rule validate_rsin_not_nine_digits)
  then show "validate_btw_number t = Inr False" by (simp add: validate_btw_eq_rsin)
next
  assume h: "length u = 9 \<and> list_all is_ascii_digit u \<and> validate_rsin_number u = Inr True
        \<and> i < 9 \<and> is_ascii_digit c \<and> c \<noteq> u ! i"
  then have ok: "rsin_rule u" using validate_rsin_ascii[of u] by simp
  have len': "length (u[i := c]) = 9" using h by simp
  have dig': "list_all is_ascii_digit (u[i := c])"
    using h by (auto simp: list_all_length nth_list_update)
  have "validate_rsin_number (u[i := c]) = Inr (rsin_rule (u[i := c]))"
    by (rule validate_rsin_ascii[OF len' dig'])
  also have "rsin_rule (u[i := c]) \<longleftrightarrow> i < 8 \<and> {rsin_checksum u, rsin_checksum (u[i := c])} = {1, 10}"
    using rsin_mutation[of u i c] h ok by blast
  finally show "validate_rsin_number (u[i := c]) =
        Inr (i < 8 \<and> {rsin_checksum u, rsin_checksum (u[i := c])} = {1, 10})" .
qed

theorem validate_rsin_number_checksum_witness:
  "length ''123456789'' = 9 \<and> list_all is_ascii_digit ''123456789''
   \<and> validate_rsin_number ''123456789'' = Inr True
   \<and> validate_btw_number ''123456789'' = Inr True
   \<and> length ''01234567'' \<noteq> 9
   \<and> validate_rsin_number ''01234567'' = Inr False
   \<and> (3::nat) < 9 \<and> is_ascii_digit CHR ''0'' \<and> CHR ''0'' \<noteq> ''123456789'' ! 3
   \<and> validate_rsin_number (''123456789''[3 := CHR ''0'']) = Inr False"
  using validate_rsin_number_checksum
    [of "''123456789''" "''01234567''" "''123456789''" 3 "CHR ''0''"]
  by (simp add: is_ascii_digit_def rsin_rule_def rsin_checksum_def digit_value_def sum_upt8
      doubleton_eq_iff)

text \<open>
  The claim as stated fails: 000000061 is valid (checksum 1), and changing its first digit
  to 1 gives 100000061, which is valid too (checksum 10, check digit 11 - 10 = 1).
\<close>

theorem validate_rsin_number_mutation_counterexample:
  "''100000061'' = ''000000061''[0 := CHR ''1'']
   \<and> validate_rsin_number ''000000061'' = Inr True
   \<and> validate_rsin_number ''100000061'' = Inr True"
  by (simp add: validate_rsin_number_def str_isdigit_def char_isdigit_def is_ascii_digit_def
      int_of_digit_def sum_upt8)

section \<open>Properties of the sequence matcher\<close>

lemma blocks_size_simps [simp]:
  "blocks_size [] = 0"
  "blocks_size ((i, j, k) # bs) = k + blocks_size bs"
  "blocks_size (xs @ ys) = blocks_size xs + blocks_size ys"
  by (simp_all add: blocks_size_def)

lemma matching_blocks_size_le:
  "alo \<le> ahi \<Longrightarrow> blo \<le> bhi \<Longrightarrow>
   blocks_size (matching_blocks a b b2j alo ahi blo bhi) \<le> min (ahi - alo) (bhi - blo)"
proof (induction a b b2j alo ahi blo bhi rule: matching_blocks.induct)
  case (1 a b b2j alo ahi blo bhi)
  obtain i j k where flm: "find_longest_match a b b2j alo ahi blo bhi = (i, j, k)"
    by (cases "find_longest_match a b b2j alo ahi blo bhi")
  show ?case
  proof (cases "k = 0")
    case True
    then show ?thesis using flm by (subst matching_blocks.simps) simp
  next
    case False
    then have k: "0 < k" by simp
    from find_longest_match_bounds[OF flm k]
    have bnd: "alo \<le> i" "i + k \<le> ahi" "blo \<le> j" "j + k \<le> bhi" by simp_all
    let ?L = "if alo < i \<and> blo < j then matching_blocks a b b2j alo i blo j else []"
    let ?R = "if i + k < ahi \<and> j + k < bhi then matching_blocks a b b2j (i + k) ahi (j + k) bhi else []"
    have L: "blocks_size ?L \<le> min (i - alo) (j - blo)"
    proof (cases "alo < i \<and> blo < j")
      case True
      then have "alo \<le> i" "blo \<le> j" by simp_all
      from "1.IH"(1)[OF flm[symmetric] refl False True this] True show ?thesis by simp
    next
      case False
      then show ?thesis by auto
    qed
    have R: "blocks_size ?R \<le> min (ahi - (i + k)) (bhi - (j + k))"
    proof (cases "i + k < ahi \<and> j + k < bhi")
      case True
      then have "i + k \<le> ahi" "j + k \<le> bhi" by simp_all
      from "1.IH"(2)[OF flm[symmetric] refl False True this] True show ?thesis by simp
    next
      case False
      then show ?thesis by auto
    qed
    have "matching_blocks a b b2j alo ahi blo bhi = (i, j, k) # ?L @ ?R"
      using flm False by (subst matching_blocks.simps) simp
    then have "blocks_size (matching_blocks a b b2j alo ahi blo bhi) = k + blocks_size ?L + blocks_size ?R"
      by simp
    then show ?thesis using L R bnd by linarith
  qed
qed

lemma ratio_range: "0 \<le> ratio a b \<and> ratio a b \<le> 1"
proof -
  let ?m = "blocks_size (matching_blocks a b (chain_b b) 0 (length a) 0 (length b))"
  have "?m \<le> min (length a) (length b)"
    using matching_blocks_size_le[of 0 "length a" 0 "length b" a b "chain_b b"] by simp
  then have "2 * ?m \<le> length a + length b" by simp
  then have "2 * real ?m \<le> real (length a + length b)"
    by (metis of_nat_le_iff of_nat_mult of_nat_numeral)
  then show ?thesis
    by (simp add: ratio_def Let_def blocks_size_def divide_le_eq)
qed

lemma run_len_step:
  "b2j (a ! j) \<noteq> [] \<Longrightarrow> run_len a b2j j = (if j = 0 then 1 else run_len a b2j (j - 1) + 1)"
  by (cases j) simp_all

lemma flm_inner_diag:
  assumes "flm_inner js 0 n i j2len new best = (new', best')"
    and prev: "prev_row a b2j i j2len"
    and "sorted_wrt (<) js" and "\<forall>j \<in> set js. j < n \<and> b2j (a ! j) \<noteq> []"
    and ne: "b2j (a ! i) \<noteq> []"
    and "\<forall>j v. new j = Some v \<longrightarrow> v \<le> run_len a b2j j \<and> v \<le> run_len a b2j i"
    and "i \<in> set js \<or> new i = Some (run_len a b2j i)"
    and "diag_best a b2j i best"
    and "i \<in> set js \<or> run_len a b2j i \<le> snd (snd best)"
  shows "diag_row a b2j i new' \<and> diag_best a b2j (Suc i) best'"
  using assms(1,3,4,6-9)
proof (induction js arbitrary: new best)
  case Nil
  have pos: "run_len a b2j i \<noteq> 0" using run_len_step[of b2j a i, OF ne] by simp
  from Nil have eq: "new' = new" "best' = best" by simp_all
  obtain bi bj bs where best: "best = (bi, bj, bs)" by (cases best)
  have "diag_row a b2j i new" using Nil pos by (simp add: diag_row_def)
  moreover have "diag_best a b2j (Suc i) best"
    using Nil best by (auto simp: diag_best_def less_Suc_eq)
  ultimately show ?case using eq by simp
next
  case (Cons j js)
  obtain bi bj bs where best: "best = (bi, bj, bs)" by (cases best)
  have jn: "j < n" and jne: "b2j (a ! j) \<noteq> []" using Cons.prems(3) by simp_all
  have Dj: "run_len a b2j j = (if j = 0 then 1 else run_len a b2j (j - 1) + 1)"
    by (rule run_len_step[of b2j a j, OF jne])
  have Di: "run_len a b2j i = (if i = 0 then 1 else run_len a b2j (i - 1) + 1)"
    by (rule run_len_step[of b2j a i, OF ne])
  define k where "k = (case (if j = 0 then None else j2len (j - 1)) of None \<Rightarrow> 0 | Some v \<Rightarrow> v) + 1"
  have prevD: "\<And>v. j \<noteq> 0 \<Longrightarrow> j2len (j - 1) = Some v \<Longrightarrow>
      i \<noteq> 0 \<and> v \<le> run_len a b2j (j - 1) \<and> v \<le> run_len a b2j (i - 1)"
    using prev by (auto simp: prev_row_def diag_row_def split: if_splits)
  have kj: "k \<le> run_len a b2j j"
  proof (cases "j = 0 \<or> j2len (j - 1) = None")
    case True
    then have "k = 1" by (auto simp: k_def)
    then show ?thesis using Dj by simp
  next
    case False
    then obtain v where v: "j2len (j - 1) = Some v" and j0: "j \<noteq> 0" by auto
    have "k = v + 1" using v j0 by (simp add: k_def)
    then show ?thesis using prevD[OF j0 v] Dj j0 by simp
  qed
  have ki: "k \<le> run_len a b2j i"
  proof (cases "j = 0 \<or> j2len (j - 1) = None")
    case True
    then have "k = 1" by (auto simp: k_def)
    then show ?thesis using Di by simp
  next
    case False
    then obtain v where v: "j2len (j - 1) = Some v" and j0: "j \<noteq> 0" by auto
    have "k = v + 1" using v j0 by (simp add: k_def)
    then show ?thesis using prevD[OF j0 v] Di by simp
  qed
  have kdiag: "j = i \<Longrightarrow> k = run_len a b2j i"
  proof -
    assume ji: "j = i"
    show ?thesis
    proof (cases "i = 0")
      case True
      then show ?thesis using ji Di by (simp add: k_def)
    next
      case False
      then have "j2len (i - 1) = (if run_len a b2j (i - 1) = 0 then None else Some (run_len a b2j (i - 1)))"
        using prev by (simp add: prev_row_def diag_row_def)
      then show ?thesis using ji False Di by (simp add: k_def)
    qed
  qed
  let ?best = "if bs < k then (i + 1 - k, j + 1 - k, k) else (bi, bj, bs)"
  have step: "flm_inner js 0 n i j2len (new(j \<mapsto> k)) ?best = (new', best')"
  proof -
    have c1: "\<not> j < 0" by simp
    have c2: "\<not> n \<le> j" using jn by simp
    show ?thesis
      using Cons.prems(1) unfolding k_def best
      by (simp only: flm_inner.simps c1 c2 if_False Let_def)
  qed
  have s': "sorted_wrt (<) js" and all': "\<forall>j \<in> set js. j < n \<and> b2j (a ! j) \<noteq> []"
    using Cons.prems(2,3) by simp_all
  have gt: "\<forall>j' \<in> set js. j < j'" using Cons.prems(2) by simp
  have new': "\<forall>j' v. (new(j \<mapsto> k)) j' = Some v \<longrightarrow> v \<le> run_len a b2j j' \<and> v \<le> run_len a b2j i"
    using Cons.prems(4) kj ki by auto
  have newi: "i \<in> set js \<or> (new(j \<mapsto> k)) i = Some (run_len a b2j i)"
    using Cons.prems(5) kdiag by auto
  have noupd: "j \<noteq> i \<Longrightarrow> k \<le> bs"
  proof -
    assume nji: "j \<noteq> i"
    show "k \<le> bs"
    proof (cases "j < i")
      case True
      then have "run_len a b2j j \<le> bs" using Cons.prems(6) best by (simp add: diag_best_def)
      then show ?thesis using kj by simp
    next
      case False
      then have "i < j" using nji by simp
      then have "i \<notin> set (j # js)" using gt by auto
      then have "run_len a b2j i \<le> bs" using Cons.prems(7) best by simp
      then show ?thesis using ki by simp
    qed
  qed
  have bestd: "diag_best a b2j i ?best"
  proof (cases "bs < k")
    case True
    then have "j = i" using noupd by fastforce
    then show ?thesis using True Cons.prems(6) best by (auto simp: diag_best_def)
  next
    case False
    then show ?thesis using Cons.prems(6) best by simp
  qed
  have besti: "i \<in> set js \<or> run_len a b2j i \<le> snd (snd ?best)"
  proof (cases "j = i")
    case True
    then show ?thesis using kdiag by auto
  next
    case False
    then show ?thesis using Cons.prems(7) best by auto
  qed
  show ?case by (rule Cons.IH[OF step s' all' new' newi bestd besti])
qed

lemma flm_rows_diag:
  assumes good: "good_b2j a b2j" and n: "n = length a"
    and "i \<le> n" "prev_row a b2j i j2len" "diag_best a b2j i best"
  shows "diag_best a b2j n (flm_rows a b2j 0 n [i..<n] j2len best)"
  using assms(3-5)
proof (induction "n - i" arbitrary: i j2len best)
  case 0
  then show ?case by simp
next
  case (Suc m)
  then have lt: "i < n" by simp
  obtain new best' where inner: "flm_inner (b2j (a ! i)) 0 n i j2len Map.empty best = (new, best')"
    by (cases "flm_inner (b2j (a ! i)) 0 n i j2len Map.empty best")
  have res: "diag_row a b2j i new \<and> diag_best a b2j (Suc i) best'"
  proof (cases "b2j (a ! i) = []")
    case True
    then have eq: "new = Map.empty" "best' = best" using inner by simp_all
    have D0: "run_len a b2j i = 0" using True by (cases i) simp_all
    obtain bi bj bs where best: "best = (bi, bj, bs)" by (cases best)
    show ?thesis using eq D0 Suc.prems(3) best
      by (auto simp: diag_row_def diag_best_def less_Suc_eq)
  next
    case False
    from good lt n False
    have js: "sorted_wrt (<) (b2j (a ! i))" "i \<in> set (b2j (a ! i))"
      "\<forall>j \<in> set (b2j (a ! i)). j < length a \<and> a ! j = a ! i"
      unfolding good_b2j_def by blast+
    have all: "\<forall>j \<in> set (b2j (a ! i)). j < n \<and> b2j (a ! j) \<noteq> []"
      using js(3) False n by auto
    show ?thesis
      by (rule flm_inner_diag[OF inner Suc.prems(2) js(1) all False _ _ Suc.prems(3)])
         (use js(2) in simp_all)
  qed
  then have pr: "prev_row a b2j (Suc i) new" by (simp add: prev_row_def)
  have "diag_best a b2j n (flm_rows a b2j 0 n [Suc i..<n] new best')"
    using Suc.hyps(1)[of "Suc i" new best'] Suc.hyps(2) pr res lt by simp
  then show ?case using lt inner by (simp add: upt_conv_Cons)
qed

lemma extend_left_diag: "extend_left a a 0 0 (i, i, s) = (0, 0, s + i)"
proof (induction i arbitrary: s)
  case 0
  show ?case by (subst extend_left.simps) simp
next
  case (Suc i)
  show ?case using Suc[of "s + 1"] by (subst extend_left.simps) simp
qed

lemma extend_right_diag: "s \<le> n \<Longrightarrow> extend_right a a n n (0, 0, s) = (0, 0, n)"
proof (induction "n - s" arbitrary: s)
  case 0
  then show ?case by (subst extend_right.simps) simp
next
  case (Suc m)
  then have lt: "s < n" by simp
  have "extend_right a a n n (0, 0, s + 1) = (0, 0, n)"
    using Suc.hyps(1)[of "s + 1"] Suc.hyps(2) lt by simp
  then show ?case using lt by (subst extend_right.simps) simp
qed

lemma find_longest_match_diag:
  assumes "good_b2j a b2j"
  shows "find_longest_match a a b2j 0 (length a) 0 (length a) = (0, 0, length a)"
proof -
  let ?n = "length a"
  obtain bi bj bs where rows: "flm_rows a b2j 0 ?n [0..<?n] Map.empty (0, 0, 0) = (bi, bj, bs)"
    by (cases "flm_rows a b2j 0 ?n [0..<?n] Map.empty (0, 0, 0)")
  have "diag_best a b2j ?n (flm_rows a b2j 0 ?n [0..<?n] Map.empty (0, 0, 0))"
    by (rule flm_rows_diag[OF assms refl]) (simp_all add: prev_row_def diag_best_def)
  then have d: "bi = bj" using rows by (simp add: diag_best_def)
  have "best_ok 0 ?n 0 ?n (flm_rows a b2j 0 ?n [0..<?n] Map.empty (0, 0, 0))"
    by (rule flm_rows_inv) (simp_all add: row_ok_def best_ok_def)
  then have le: "bs + bi \<le> ?n" using rows by (auto simp: best_ok_def split: if_splits)
  show ?thesis
    using extend_right_diag[OF le, of a]
    by (simp add: find_longest_match_def rows d extend_left_diag)
qed

lemma matching_blocks_diag:
  assumes "good_b2j a b2j"
  shows "blocks_size (matching_blocks a a b2j 0 (length a) 0 (length a)) = length a"
  by (subst matching_blocks.simps) (simp add: find_longest_match_diag[OF assms])

lemma indices_set: "set (indices x ys n) = {n + k | k. k < length ys \<and> ys ! k = x}"
proof (induction ys arbitrary: n)
  case Nil
  show ?case by simp
next
  case (Cons y ys)
  have split: "\<And>P. {n + k | k. k < Suc (length ys) \<and> P k} =
      (if P 0 then {n} else {}) \<union> {Suc n + k | k. k < length ys \<and> P (Suc k)}"
  proof -
    fix P
    show "{n + k | k. k < Suc (length ys) \<and> P k} =
      (if P 0 then {n} else {}) \<union> {Suc n + k | k. k < length ys \<and> P (Suc k)}"
      apply (auto simp: less_Suc_eq_0_disj)
      done
  qed
  show ?case using Cons[of "Suc n"] split[of "\<lambda>k. (y # ys) ! k = x"] by auto
qed

lemma indices_sorted: "sorted_wrt (<) (indices x ys n)"
proof (induction ys arbitrary: n)
  case Nil
  show ?case by simp
next
  case (Cons y ys)
  have "\<forall>j \<in> set (indices x ys (Suc n)). n < j" by (auto simp: indices_set)
  then show ?case using Cons[of "Suc n"] by simp
qed

lemma indices_mem: "j \<in> set (indices x ys 0) \<longleftrightarrow> j < length ys \<and> ys ! j = x"
proof -
  have "set (indices x ys 0) = {k. k < length ys \<and> ys ! k = x}"
    using indices_set[of x ys 0] by simp
  then show ?thesis by simp
qed

lemma good_b2j_chain_b: "good_b2j a (chain_b a)"
  unfolding good_b2j_def
proof (intro allI impI)
  fix i assume i: "i < length a"
  let ?js = "indices (a ! i) a 0"
  have full: "sorted_wrt (<) ?js \<and> i \<in> set ?js \<and> (\<forall>j \<in> set ?js. j < length a \<and> a ! j = a ! i)"
    using i by (simp add: indices_sorted indices_mem)
  have "chain_b a (a ! i) = [] \<or> chain_b a (a ! i) = ?js"
    by (simp add: chain_b_def Let_def)
  then show "chain_b a (a ! i) = [] \<or>
         (sorted_wrt (<) (chain_b a (a ! i)) \<and> i \<in> set (chain_b a (a ! i))
          \<and> (\<forall>j \<in> set (chain_b a (a ! i)). j < length a \<and> a ! j = a ! i))"
    using full by presburger
qed

lemma ratio_same: "ratio a a = 1"
proof (cases "a = []")
  case True
  then show ?thesis by (simp add: ratio_def)
next
  case False
  have "blocks_size (matching_blocks a a (chain_b a) 0 (length a) 0 (length a)) = length a"
    by (rule matching_blocks_diag[OF good_b2j_chain_b])
  then show ?thesis using False by (simp add: ratio_def Let_def blocks_size_def)
qed

section \<open>The similarity scorer\<close>

lemma str_lower_acme: "str_lower ''Acme GmbH'' = str_lower ''ACME GMBH''"
  by code_simp

text \<open>
  Claim C8. Both similarity methods return a value between 0 and 1, give 1 on a non-empty
  string and itself, give 0 when the first string is empty and the second is not, and score
  \<open>Acme GmbH\<close> against \<open>ACME GMBH\<close> above 0.9 (the two normalise to the same string, so the
  score is 1), whatever the transliteration function is.
\<close>

theorem similarity_properties:
  "0 \<le> nl_similarity u a b \<and> nl_similarity u a b \<le> 1
   \<and> 0 \<le> mc_uk_similarity a b \<and> mc_uk_similarity a b \<le> 1
   \<and> (c \<noteq> [] \<longrightarrow> nl_similarity u c c = 1 \<and> mc_uk_similarity c c = 1)
   \<and> (x \<noteq> [] \<longrightarrow> nl_similarity u [] x = 0 \<and> mc_uk_similarity [] x = 0)
   \<and> 0.9 < nl_similarity u ''Acme GmbH'' ''ACME GMBH''
   \<and> 0.9 < mc_uk_similarity ''Acme GmbH'' ''ACME GMBH''"
proof -
  have r1: "0 \<le> nl_similarity u a b \<and> nl_similarity u a b \<le> 1"
    using ratio_range[of "normalize u a" "normalize u b"]
    by (simp add: nl_similarity_def)
  have r2: "0 \<le> mc_uk_similarity a b \<and> mc_uk_similarity a b \<le> 1"
    using ratio_range[of "str_lower a" "str_lower b"] by (simp add: mc_uk_similarity_def)
  have s: "c \<noteq> [] \<longrightarrow> nl_similarity u c c = 1 \<and> mc_uk_similarity c c = 1"
    by (simp add: nl_similarity_def mc_uk_similarity_def ratio_same)
  have e: "x \<noteq> [] \<longrightarrow> nl_similarity u [] x = 0 \<and> mc_uk_similarity [] x = 0"
    by (simp add: nl_similarity_def mc_uk_similarity_def)
  have n: "normalize u ''Acme GmbH'' = normalize u ''ACME GMBH''"
    unfolding normalize_def str_lower_acme ..
  have a1: "nl_similarity u ''Acme GmbH'' ''ACME GMBH'' = 1"
    unfolding nl_similarity_def n by (simp add: ratio_same)
  have a2: "mc_uk_similarity ''Acme GmbH'' ''ACME GMBH'' = 1"
    unfolding mc_uk_similarity_def str_lower_acme by (simp add: ratio_same)
  show ?thesis using r1 r2 s e a1 a2 by simp
qed

theorem similarity_properties_witness:
  "''Acme'' \<noteq> [] \<and> nl_similarity (\<lambda>s. s) ''Acme'' ''Acme'' = 1 \<and> mc_uk_similarity ''Acme'' ''Acme'' = 1
   \<and> nl_similarity (\<lambda>s. s) [] ''Acme'' = 0 \<and> mc_uk_similarity [] ''Acme'' = 0"
  using similarity_properties [of "\<lambda>s. s" "''Acme''" "''Acme''" "''Acme''" "''Acme''"]
  by simp

section \<open>The multi-country dispatcher\<close>

lemma map_of_dict_set: "map_of (dict_set k v d) = (map_of d)(k \<mapsto> v)"
  by (induction d) (auto simp: fun_eq_iff)

lemma dict_get_dict_set: "dict_get (dict_set k v d) k' = (if k' = k then Some v else dict_get d k')"
  by (simp add: dict_get_def map_of_dict_set)

text \<open>
  Claim C5. A country code that is not a key of \<open>self.extractors\<close> gives the outcome with
  status \<open>Country not supported\<close>, and the state comes back as it went in: no request was
  made.
\<close>

theorem unsupported_country_no_fetch:
  assumes "country_code \<notin> {''GB'', ''DE'', ''FR'', ''IT'', ''PT'', ''NL'', ''AT'', ''CH'', ''LU''}"
  shows "\<exists>r. process_single_company net company_name website country_code st = (Inr r, st)
           \<and> dict_get r ''status'' = Some ''Country not supported''
           \<and> dict_get r ''company_name'' = Some company_name"
proof -
  have "map_of extractors country_code = None"
    using assms by (simp add: extractors_def)
  then show ?thesis
    by (simp add: process_single_company_def dict_get_def)
qed

theorem unsupported_country_no_fetch_witness:
  "''ES'' \<notin> {''GB'', ''DE'', ''FR'', ''IT'', ''PT'', ''NL'', ''AT'', ''CH'', ''LU''}
   \<and> (\<exists>r. process_single_company (fixed_net (\<lambda>url. html_page ''KvK: 12345678'') (\<lambda>page. []) (\<lambda>page. empty_page))
              ''Acme'' ''https://acme.es'' ''ES'' start_state = (Inr r, start_state)
           \<and> dict_get r ''status'' = Some ''Country not supported''
           \<and> dict_get r ''company_name'' = Some ''Acme'')"
  using unsupported_country_no_fetch
    [of "''ES''" "fixed_net (\<lambda>url. html_page ''KvK: 12345678'') (\<lambda>page. []) (\<lambda>page. empty_page)"
        "''Acme''" "''https://acme.es''" start_state]
  by simp

text \<open>
  Claim C2 fails in the multi-country extractor. Its Dutch class tests only that the
  number has eight digits; \<open>validate_kvk_number\<close> of new\_vat\_extractor\_nl.py, which
  rejects a leading zero, is not called. A Dutch query whose page reads \<open>KvK: 01234567\<close>
  comes back with that number under \<open>kvk\<close> and status \<open>Found\<close>.
\<close>

lemma dispatch_NL: "process_single_company net n w ''NL'' st = process_company NL net n w st"
  by (simp add: process_single_company_def extractors_def)

theorem mc_leading_zero_kvk_accepted:
  "fst (process_single_company (fixed_net (\<lambda>url. html_page ''KvK: 01234567'') (\<lambda>page. []) (\<lambda>page. empty_page))
          ''Acme'' ''https://acme.nl'' ''NL'' start_state)
   = Inr [(''company_name'', ''Acme''), (''website'', ''https://acme.nl''), (''legal_name'', ''Acme''),
          (''status'', ''Found''), (''kvk'', ''01234567'')]"
  unfolding dispatch_NL by code_simp

lemma validate_kvk_number_leading_zero: "\<not> validate_kvk_number ''01234567''"
  by (simp add: validate_kvk_number_def)

end
